theory Spec2Isabelle
  imports Complex_Main
begin

section \<open>Healthcare data quality checker: data model\<close>

text \<open>
  The checker (class \<open>HealthcareQualityChecker\<close> of \<open>scripts/quality_checker.py\<close>)
  runs five SQL queries against a PostgreSQL database, writes one audit row per result
  row, and assembles a report. The embedding gives each SQL query as a function over the
  tables it reads, with SQL's \<open>NULL\<close> as \<open>None\<close>, and each Python method as a
  function over an explicit checker state, with every \<open>raise\<close> of the source as a
  value \<open>Inl e\<close>.

  Dates are day numbers. Identifiers are strings, as the annotation
  \<open>record_id: str\<close> of \<open>log_quality_issue\<close> and the \<open>', '.join\<close> over
  \<open>patient_ids\<close> require. Amounts are exact: the two-argument \<open>ROUND\<close> of the
  discrepancy query exists for \<open>NUMERIC\<close> only.
\<close>

type_synonym date = int

record patient_record =
  patient_id :: string
  name :: "string option"
  date_of_birth :: "date option"
  insurance_id :: "string option"
  primary_provider :: "string option"
  contact_phone :: "string option"
  contact_email :: "string option"
  is_active :: "bool option"

record claim =
  claim_id :: string
  claim_patient_id :: string
  claim_provider_id :: string
  claim_total_amount :: "rat option"
  service_date :: "date option"
  submission_date :: "date option"
  processing_date :: "date option"

record line_item =
  line_item_id :: string
  item_claim_id :: string
  line_item_amount :: "rat option"

record provider =
  provider_id :: string
  provider_name :: "string option"
  license_number :: "string option"
  license_state :: "string option"
  license_expiry_date :: "date option"
  provider_is_active :: "bool option"

record database =
  patient_records :: "patient_record list"
  claims :: "claim list"
  claims_line_items :: "line_item list"
  providers :: "provider list"
  current_date :: date

datatype severity = LOW | MEDIUM | HIGH | CRITICAL

text \<open>The six arguments of \<open>log_quality_issue\<close>: one row of \<open>quality_audit_log\<close>.\<close>

record finding =
  check_type :: string
  table_name :: string
  record_id :: string
  issue_type :: string
  issue_description :: "string option"
  severity :: severity

text \<open>
  The rows of the five query results. A row that repeats columns of its table carries
  the table's record; the computed columns keep their SQL names.
\<close>

record completeness_row =
  row_patient :: patient_record
  missing_fields :: "string list"

record discrepancy_row =
  row_claim_id :: string
  row_patient_id :: string
  row_provider_id :: string
  row_claim_total_amount :: rat
  calculated_total :: rat
  line_item_count :: nat
  discrepancy_amount :: rat
  discrepancy_percentage :: "rat option"

record temporal_row =
  row_claim :: claim
  anomaly_type :: "string option"

record duplicate_row =
  row_name :: string
  row_date_of_birth :: date
  duplicate_count :: nat
  patient_ids :: "string list"

record credential_row =
  row_provider :: provider
  days_expired :: int

datatype details =
  CompletenessRows "completeness_row list"
  | DiscrepancyRows "discrepancy_row list"
  | TemporalRows "temporal_row list"
  | DuplicateRows "duplicate_row list"
  | CredentialRows "credential_row list"

text \<open>
  The dictionary a check returns; the keys \<open>total_discrepancy\<close> and
  \<open>total_duplicates\<close> exist for one check each.
\<close>

record check_result =
  check_name :: string
  issues_found :: nat
  total_discrepancy :: "rat option"
  total_duplicates :: "nat option"
  details :: details

datatype status = PASS | FAIL

record summary =
  total_issues_found :: nat
  checks_performed :: nat
  status :: status

record report =
  timestamp :: string
  checks :: "(string \<times> check_result) list"
  summary :: summary

datatype check_key =
  PatientCompleteness | ClaimsDiscrepancies | TemporalAnomalies
  | DuplicateRecords | ProviderCredentials

datatype error = ConnectionError | DataAccessError check_key | IndexError | RollbackError

text \<open>
  The environment of one run: the database contents, and which of the external calls
  raise. \<open>connect_fails\<close> is \<open>psycopg2.connect\<close> raising, \<open>query_fails k\<close> is
  \<open>pd.read_sql_query\<close> raising on the query of check \<open>k\<close>, \<open>audit_write_fails n\<close>
  is the \<open>n\<close>-th audit insert of the run (cursor, execute or commit) raising, and
  \<open>rollback_fails n\<close> is the \<open>rollback()\<close> in the handler of that insert raising
  in its turn, as it does on a connection that is lost.
  \<open>fmt_money\<close> is Python's \<open>'.2f'\<close> formatting and \<open>now\<close> is
  \<open>datetime.now().isoformat()\<close>.
\<close>

record env =
  db :: database
  connect_fails :: bool
  query_fails :: "check_key \<Rightarrow> bool"
  audit_write_fails :: "nat \<Rightarrow> bool"
  rollback_fails :: "nat \<Rightarrow> bool"
  fmt_money :: "rat \<Rightarrow> string"
  now :: string

text \<open>
  The checker's state: whether \<open>self.connection\<close> is set, whether that connection is
  open on the database side, how many audit writes were attempted, and the committed
  rows of \<open>quality_audit_log\<close>.
\<close>

record checker =
  connection :: bool
  connection_open :: bool
  writes_attempted :: nat
  quality_audit_log :: "finding list"

section \<open>Connection, queries and the audit sink\<close>

definition connect :: "env \<Rightarrow> checker \<Rightarrow> (error + unit) \<times> checker" where
  "connect e s =
     (if connect_fails e then (Inl ConnectionError, s)
      else (Inr (), s\<lparr>connection := True, connection_open := True\<rparr>))"

definition disconnect :: "checker \<Rightarrow> checker" where
  "disconnect s = (if connection s then s\<lparr>connection_open := False\<rparr> else s)"

text \<open>
  \<open>execute_query\<close> logs and re-raises whatever the query raises. The query is given
  by the check it belongs to and by its result on the database.
\<close>

definition execute_query :: "env \<Rightarrow> check_key \<Rightarrow> 'rows \<Rightarrow> error + 'rows" where
  "execute_query e k rows = (if query_fails e k then Inl (DataAccessError k) else Inr rows)"

text \<open>
  \<open>log_quality_issue\<close> catches every exception of the insert and logs it; the row is
  then not stored. The handler ends with \<open>self.connection.rollback()\<close>, which stands
  outside any \<open>try\<close>: when it raises, its exception leaves \<open>log_quality_issue\<close>.
\<close>

definition log_quality_issue :: "env \<Rightarrow> finding \<Rightarrow> checker \<Rightarrow> (error + unit) \<times> checker" where
  "log_quality_issue e f s =
     (if audit_write_fails e (writes_attempted s)
      then (if rollback_fails e (writes_attempted s)
            then (Inl RollbackError, s\<lparr>writes_attempted := Suc (writes_attempted s)\<rparr>)
            else (Inr (), s\<lparr>writes_attempted := Suc (writes_attempted s)\<rparr>))
      else (Inr (), s\<lparr>writes_attempted := Suc (writes_attempted s),
                     quality_audit_log := quality_audit_log s @ [f]\<rparr>))"

text \<open>
  The loop \<open>for _, row in results.iterrows(): self.log_quality_issue(...)\<close> of every
  check: the finding of a row is computed, which may raise, then written, which may
  raise; an exception ends the loop.
\<close>

fun log_rows :: "env \<Rightarrow> ('row \<Rightarrow> error + finding) \<Rightarrow> 'row list \<Rightarrow> checker
    \<Rightarrow> (error + unit) \<times> checker" where
  "log_rows e mk [] s = (Inr (), s)"
| "log_rows e mk (r # rs) s =
     (case mk r of
        Inl err \<Rightarrow> (Inl err, s)
      | Inr f \<Rightarrow>
          (case log_quality_issue e f s of
             (Inl err, s') \<Rightarrow> (Inl err, s')
           | (Inr _, s') \<Rightarrow> log_rows e mk rs s'))"

text \<open>Python's \<open>sep.join(xs)\<close> on a list of strings.\<close>

fun join :: "string \<Rightarrow> string list \<Rightarrow> string" where
  "join sep [] = []"
| "join sep [x] = x"
| "join sep (x # y # ys) = x @ sep @ join sep (y # ys)"

text \<open>Python's \<open>str\<close> of an integer.\<close>

definition digit_char :: "nat \<Rightarrow> char" where
  "digit_char d = char_of (48 + d)"

fun str_nat :: "nat \<Rightarrow> string" where
  "str_nat n = (if n < 10 then [digit_char n] else str_nat (n div 10) @ [digit_char (n mod 10)])"

definition str_int :: "int \<Rightarrow> string" where
  "str_int i = (if i < 0 then CHR ''-'' # str_nat (nat (- i)) else str_nat (nat i))"

section \<open>Patient completeness\<close>

text \<open>\<open>ARRAY_REMOVE(ARRAY[...], NULL)\<close>: the non-null elements, in order.\<close>

definition array_remove_null :: "'a option list \<Rightarrow> 'a list" where
  "array_remove_null xs = List.map_filter (\<lambda>x. x) xs"

definition missing_fields_of :: "patient_record \<Rightarrow> string list" where
  "missing_fields_of p = array_remove_null
     [ if name p = None then Some ''name'' else None,
       if date_of_birth p = None then Some ''date_of_birth'' else None,
       if insurance_id p = None then Some ''insurance_id'' else None,
       if primary_provider p = None then Some ''primary_provider'' else None,
       if contact_phone p = None \<and> contact_email p = None then Some ''contact_info'' else None ]"

definition completeness_where :: "patient_record \<Rightarrow> bool" where
  "completeness_where p \<longleftrightarrow>
     is_active p = Some True \<and>
     (name p = None \<or> date_of_birth p = None \<or> insurance_id p = None
      \<or> primary_provider p = None
      \<or> (contact_phone p = None \<and> contact_email p = None))"

definition completeness_row_of :: "patient_record \<Rightarrow> completeness_row" where
  "completeness_row_of p = \<lparr>row_patient = p, missing_fields = missing_fields_of p\<rparr>"

definition completeness_query :: "database \<Rightarrow> completeness_row list" where
  "completeness_query d = map completeness_row_of (filter completeness_where (patient_records d))"

definition completeness_finding :: "completeness_row \<Rightarrow> finding" where
  "completeness_finding r =
     \<lparr>check_type = ''completeness_check'',
      table_name = ''patient_records'',
      record_id = patient_id (row_patient r),
      issue_type = ''incomplete_record'',
      issue_description = Some (''Missing fields: '' @ join '', '' (missing_fields r)),
      severity = (if length (missing_fields r) > 2 then HIGH else MEDIUM)\<rparr>"

definition check_patient_completeness :: "env \<Rightarrow> checker \<Rightarrow> (error + check_result) \<times> checker" where
  "check_patient_completeness e s =
     (case execute_query e PatientCompleteness (completeness_query (db e)) of
        Inl err \<Rightarrow> (Inl err, s)
      | Inr results \<Rightarrow>
          (case log_rows e (\<lambda>r. Inr (completeness_finding r)) results s of
             (Inl err, s') \<Rightarrow> (Inl err, s')
           | (Inr _, s') \<Rightarrow>
               (Inr \<lparr>check_name = ''Patient Completeness'',
                     issues_found = length results,
                     total_discrepancy = None,
                     total_duplicates = None,
                     details = CompletenessRows results\<rparr>, s')))"

section \<open>Claims discrepancies\<close>

text \<open>
  The common table expression \<open>claim_line_totals\<close>: claims left-joined with their
  line items and grouped by the four claim columns. \<open>SUM\<close> skips null amounts and is
  null over no value at all, which \<open>COALESCE\<close> turns into 0;
  \<open>COUNT(cli.line_item_id)\<close> counts the joined line items.
\<close>

definition claim_key :: "claim \<Rightarrow> string \<times> string \<times> string \<times> rat option" where
  "claim_key c = (claim_id c, claim_patient_id c, claim_provider_id c, claim_total_amount c)"

definition joined_items :: "database \<Rightarrow> claim \<Rightarrow> line_item list" where
  "joined_items d c = filter (\<lambda>i. item_claim_id i = claim_id c) (claims_line_items d)"

definition sum_amounts :: "line_item list \<Rightarrow> rat" where
  "sum_amounts its = sum_list (array_remove_null (map line_item_amount its))"

definition claim_line_totals ::
    "database \<Rightarrow> ((string \<times> string \<times> string \<times> rat option) \<times> rat \<times> nat) list" where
  "claim_line_totals d =
     map (\<lambda>k. let its = concat (map (joined_items d) (filter (\<lambda>c. claim_key c = k) (claims d)))
              in (k, sum_amounts its, length its))
         (remdups (map claim_key (claims d)))"

text \<open>\<open>ROUND(x, 2)\<close> on \<open>NUMERIC\<close>: to two decimals, ties away from zero.\<close>

definition round2 :: "rat \<Rightarrow> rat" where
  "round2 x = sgn x * of_int \<lfloor>\<bar>x\<bar> * 100 + 1 / 2\<rfloor> / 100"

text \<open>
  The outer \<open>SELECT\<close>: a group is kept when \<open>ABS(claim_total_amount -
  calculated_total) > 0.01\<close> is true, which a null total never is;
  \<open>NULLIF(claim_total_amount, 0)\<close> makes the percentage null for a total of 0.
\<close>

definition discrepancy_row_of ::
    "(string \<times> string \<times> string \<times> rat option) \<times> rat \<times> nat \<Rightarrow> discrepancy_row option" where
  "discrepancy_row_of t =
     (case t of ((cid, pid, prid, stated), calc, n) \<Rightarrow>
        (case stated of
           None \<Rightarrow> None
         | Some tot \<Rightarrow>
             if \<bar>tot - calc\<bar> > 1 / 100
             then Some \<lparr>row_claim_id = cid, row_patient_id = pid, row_provider_id = prid,
                        row_claim_total_amount = tot, calculated_total = calc,
                        line_item_count = n,
                        discrepancy_amount = \<bar>tot - calc\<bar>,
                        discrepancy_percentage =
                          (if tot = 0 then None
                           else Some (round2 (\<bar>tot - calc\<bar> / tot * 100)))\<rparr>
             else None))"

definition discrepancy_query :: "database \<Rightarrow> discrepancy_row list" where
  "discrepancy_query d =
     sort_key (\<lambda>r. - discrepancy_amount r)
       (List.map_filter discrepancy_row_of (claim_line_totals d))"

definition discrepancy_finding :: "env \<Rightarrow> discrepancy_row \<Rightarrow> finding" where
  "discrepancy_finding e r =
     \<lparr>check_type = ''discrepancy_check'',
      table_name = ''claims'',
      record_id = row_claim_id r,
      issue_type = ''amount_mismatch'',
      issue_description = Some (''Claim total: $'' @ fmt_money e (row_claim_total_amount r)
         @ '', Line items sum: $'' @ fmt_money e (calculated_total r)
         @ '', Discrepancy: $'' @ fmt_money e (discrepancy_amount r)),
      severity = (if discrepancy_amount r > 1000 then CRITICAL else HIGH)\<rparr>"

definition check_claims_discrepancies :: "env \<Rightarrow> checker \<Rightarrow> (error + check_result) \<times> checker" where
  "check_claims_discrepancies e s =
     (case execute_query e ClaimsDiscrepancies (discrepancy_query (db e)) of
        Inl err \<Rightarrow> (Inl err, s)
      | Inr results \<Rightarrow>
          (case log_rows e (\<lambda>r. Inr (discrepancy_finding e r)) results s of
             (Inl err, s') \<Rightarrow> (Inl err, s')
           | (Inr _, s') \<Rightarrow>
               (Inr \<lparr>check_name = ''Claims Discrepancies'',
                     issues_found = length results,
                     total_discrepancy =
                       Some (if length results > 0
                             then sum_list (map discrepancy_amount results) else 0),
                     total_duplicates = None,
                     details = DiscrepancyRows results\<rparr>, s')))"

section \<open>Temporal anomalies\<close>

text \<open>
  A comparison with a null operand is null, and neither \<open>WHERE\<close> nor \<open>CASE WHEN\<close>
  takes a null condition: \<open>sql_lt a b\<close> says that \<open>a < b\<close> is true.
\<close>

definition sql_lt :: "date option \<Rightarrow> date option \<Rightarrow> bool" where
  "sql_lt a b = (case a of None \<Rightarrow> False | Some x \<Rightarrow> (case b of None \<Rightarrow> False | Some y \<Rightarrow> x < y))"

definition anomaly_type_of :: "claim \<Rightarrow> string option" where
  "anomaly_type_of c =
     (if sql_lt (submission_date c) (service_date c) then Some ''Submission before service''
      else if sql_lt (processing_date c) (submission_date c)
           then Some ''Processing before submission''
      else None)"

definition temporal_where :: "claim \<Rightarrow> bool" where
  "temporal_where c \<longleftrightarrow>
     sql_lt (submission_date c) (service_date c)
     \<or> (processing_date c \<noteq> None \<and> sql_lt (processing_date c) (submission_date c))"

definition temporal_row_of :: "claim \<Rightarrow> temporal_row" where
  "temporal_row_of c = \<lparr>row_claim = c, anomaly_type = anomaly_type_of c\<rparr>"

definition temporal_query :: "database \<Rightarrow> temporal_row list" where
  "temporal_query d = map temporal_row_of (filter temporal_where (claims d))"

definition temporal_finding :: "temporal_row \<Rightarrow> finding" where
  "temporal_finding r =
     \<lparr>check_type = ''temporal_check'',
      table_name = ''claims'',
      record_id = claim_id (row_claim r),
      issue_type = ''temporal_anomaly'',
      issue_description = anomaly_type r,
      severity = HIGH\<rparr>"

definition check_temporal_anomalies :: "env \<Rightarrow> checker \<Rightarrow> (error + check_result) \<times> checker" where
  "check_temporal_anomalies e s =
     (case execute_query e TemporalAnomalies (temporal_query (db e)) of
        Inl err \<Rightarrow> (Inl err, s)
      | Inr results \<Rightarrow>
          (case log_rows e (\<lambda>r. Inr (temporal_finding r)) results s of
             (Inl err, s') \<Rightarrow> (Inl err, s')
           | (Inr _, s') \<Rightarrow>
               (Inr \<lparr>check_name = ''Temporal Anomalies'',
                     issues_found = length results,
                     total_discrepancy = None,
                     total_duplicates = None,
                     details = TemporalRows results\<rparr>, s')))"

section \<open>Duplicate records\<close>

text \<open>
  The rows the \<open>WHERE\<close> clause keeps, as grouping key and patient id. The groups
  come in no order that SQL fixes, nor do the ids inside \<open>ARRAY_AGG\<close>: the model
  takes the table's order for both, and a stable sort for \<open>ORDER BY duplicate_count
  DESC\<close>.
\<close>

definition duplicate_candidate :: "patient_record \<Rightarrow> ((string \<times> date) \<times> string) option" where
  "duplicate_candidate p =
     (case name p of
        None \<Rightarrow> None
      | Some n \<Rightarrow>
          (case date_of_birth p of
             None \<Rightarrow> None
           | Some b \<Rightarrow> if is_active p = Some True then Some ((n, b), patient_id p) else None))"

definition duplicate_candidates :: "database \<Rightarrow> ((string \<times> date) \<times> string) list" where
  "duplicate_candidates d = List.map_filter duplicate_candidate (patient_records d)"

definition group_ids :: "((string \<times> date) \<times> string) list \<Rightarrow> string \<times> date \<Rightarrow> string list" where
  "group_ids cs k = map snd (filter (\<lambda>c. fst c = k) cs)"

definition duplicate_row_of :: "((string \<times> date) \<times> string) list \<Rightarrow> string \<times> date \<Rightarrow> duplicate_row" where
  "duplicate_row_of cs k =
     \<lparr>row_name = fst k, row_date_of_birth = snd k,
      duplicate_count = length (group_ids cs k),
      patient_ids = group_ids cs k\<rparr>"

definition duplicate_groups :: "database \<Rightarrow> duplicate_row list" where
  "duplicate_groups d =
     (let cs = duplicate_candidates d
      in filter (\<lambda>r. duplicate_count r > 1) (map (duplicate_row_of cs) (remdups (map fst cs))))"

definition duplicate_query :: "database \<Rightarrow> duplicate_row list" where
  "duplicate_query d = sort_key (\<lambda>r. - int (duplicate_count r)) (duplicate_groups d)"

text \<open>\<open>row['patient_ids'][0]\<close> raises \<open>IndexError\<close> on an empty list.\<close>

definition duplicate_finding :: "duplicate_row \<Rightarrow> error + finding" where
  "duplicate_finding r =
     (case patient_ids r of
        [] \<Rightarrow> Inl IndexError
      | pid # _ \<Rightarrow>
          Inr \<lparr>check_type = ''duplicate_check'',
               table_name = ''patient_records'',
               record_id = pid,
               issue_type = ''potential_duplicate'',
               issue_description =
                 Some (''Duplicate patients found: '' @ join '', '' (patient_ids r)),
               severity = MEDIUM\<rparr>)"

definition check_duplicate_records :: "env \<Rightarrow> checker \<Rightarrow> (error + check_result) \<times> checker" where
  "check_duplicate_records e s =
     (case execute_query e DuplicateRecords (duplicate_query (db e)) of
        Inl err \<Rightarrow> (Inl err, s)
      | Inr results \<Rightarrow>
          (case log_rows e duplicate_finding results s of
             (Inl err, s') \<Rightarrow> (Inl err, s')
           | (Inr _, s') \<Rightarrow>
               (Inr \<lparr>check_name = ''Duplicate Records'',
                     issues_found = length results,
                     total_discrepancy = None,
                     total_duplicates =
                       Some (if length results > 0
                             then sum_list (map duplicate_count results) else 0),
                     details = DuplicateRows results\<rparr>, s')))"

section \<open>Provider credentials\<close>

text \<open>
  \<open>license_expiry_date < CURRENT_DATE AND is_active = TRUE\<close> is true for no null
  expiry date; \<open>CURRENT_DATE - license_expiry_date\<close> is a number of days. The rows
  are sorted by expiry date.
\<close>

definition expired_candidate :: "database \<Rightarrow> provider \<Rightarrow> (date \<times> provider) option" where
  "expired_candidate d p =
     (case license_expiry_date p of
        None \<Rightarrow> None
      | Some x \<Rightarrow>
          if x < current_date d \<and> provider_is_active p = Some True then Some (x, p) else None)"

definition credential_row_of :: "database \<Rightarrow> date \<times> provider \<Rightarrow> credential_row" where
  "credential_row_of d xp = \<lparr>row_provider = snd xp, days_expired = current_date d - fst xp\<rparr>"

definition credentials_query :: "database \<Rightarrow> credential_row list" where
  "credentials_query d =
     map (credential_row_of d) (sort_key fst (List.map_filter (expired_candidate d) (providers d)))"

definition credential_finding :: "credential_row \<Rightarrow> finding" where
  "credential_finding r =
     \<lparr>check_type = ''credential_check'',
      table_name = ''providers'',
      record_id = provider_id (row_provider r),
      issue_type = ''expired_license'',
      issue_description =
        Some (''License expired '' @ str_int (days_expired r) @ '' days ago''),
      severity = CRITICAL\<rparr>"

definition check_provider_credentials :: "env \<Rightarrow> checker \<Rightarrow> (error + check_result) \<times> checker" where
  "check_provider_credentials e s =
     (case execute_query e ProviderCredentials (credentials_query (db e)) of
        Inl err \<Rightarrow> (Inl err, s)
      | Inr results \<Rightarrow>
          (case log_rows e (\<lambda>r. Inr (credential_finding r)) results s of
             (Inl err, s') \<Rightarrow> (Inl err, s')
           | (Inr _, s') \<Rightarrow>
               (Inr \<lparr>check_name = ''Provider Credentials'',
                     issues_found = length results,
                     total_discrepancy = None,
                     total_duplicates = None,
                     details = CredentialRows results\<rparr>, s')))"

section \<open>Running all checks\<close>

text \<open>Sequencing of two steps: an exception of the first skips the second.\<close>

definition and_then ::
    "(checker \<Rightarrow> (error + 'a) \<times> checker) \<Rightarrow> ('a \<Rightarrow> checker \<Rightarrow> (error + 'b) \<times> checker)
     \<Rightarrow> checker \<Rightarrow> (error + 'b) \<times> checker" where
  "and_then m f s = (case m s of (Inl err, s') \<Rightarrow> (Inl err, s') | (Inr x, s') \<Rightarrow> f x s')"

text \<open>
  The body of the \<open>try\<close> block: the dictionary literal evaluates the five checks in
  the order written, then the summary is computed from the \<open>checks\<close> entries.
\<close>

definition make_report :: "env \<Rightarrow> (string \<times> check_result) list \<Rightarrow> report" where
  "make_report e cs =
     (let total_issues = sum_list (map (\<lambda>kv. issues_found (snd kv)) cs)
      in \<lparr>timestamp = now e,
          checks = cs,
          summary = \<lparr>total_issues_found = total_issues,
                     checks_performed = length cs,
                     status = (if total_issues > 0 then FAIL else PASS)\<rparr>\<rparr>)"

definition run_checks :: "env \<Rightarrow> checker \<Rightarrow> (error + report) \<times> checker" where
  "run_checks e =
     and_then (check_patient_completeness e) (\<lambda>r1.
     and_then (check_claims_discrepancies e) (\<lambda>r2.
     and_then (check_temporal_anomalies e) (\<lambda>r3.
     and_then (check_duplicate_records e) (\<lambda>r4.
     and_then (check_provider_credentials e) (\<lambda>r5 s.
       (Inr (make_report e
               [(''patient_completeness'', r1),
                (''claims_discrepancies'', r2),
                (''temporal_anomalies'', r3),
                (''duplicate_records'', r4),
                (''provider_credentials'', r5)]), s))))))"

text \<open>
  \<open>run_all_checks\<close>: \<open>connect\<close> stands before the \<open>try\<close>, so its exception
  leaves at once; the \<open>finally\<close> clause runs \<open>disconnect\<close> after the body,
  whether it returned or raised.
\<close>

definition run_all_checks :: "env \<Rightarrow> checker \<Rightarrow> (error + report) \<times> checker" where
  "run_all_checks e s =
     (case connect e s of
        (Inl err, s') \<Rightarrow> (Inl err, s')
      | (Inr _, s') \<Rightarrow> (case run_checks e s' of (r, s'') \<Rightarrow> (r, disconnect s'')))"

text \<open>The state of a checker after \<open>__init__\<close>.\<close>

definition init_checker :: checker where
  "init_checker = \<lparr>connection = False, connection_open = False, writes_attempted = 0,
                   quality_audit_log = []\<rparr>"

section \<open>Notions of the specification\<close>

text \<open>
  The rule behind each key, the number of rows its query returns, and the order in which
  \<open>run_all_checks\<close> runs the rules.
\<close>

fun run_check :: "check_key \<Rightarrow> env \<Rightarrow> checker \<Rightarrow> (error + check_result) \<times> checker" where
  "run_check PatientCompleteness = check_patient_completeness"
| "run_check ClaimsDiscrepancies = check_claims_discrepancies"
| "run_check TemporalAnomalies = check_temporal_anomalies"
| "run_check DuplicateRecords = check_duplicate_records"
| "run_check ProviderCredentials = check_provider_credentials"

fun row_count :: "check_key \<Rightarrow> database \<Rightarrow> nat" where
  "row_count PatientCompleteness d = length (completeness_query d)"
| "row_count ClaimsDiscrepancies d = length (discrepancy_query d)"
| "row_count TemporalAnomalies d = length (temporal_query d)"
| "row_count DuplicateRecords d = length (duplicate_query d)"
| "row_count ProviderCredentials d = length (credentials_query d)"

definition registration_order :: "check_key list" where
  "registration_order =
     [PatientCompleteness, ClaimsDiscrepancies, TemporalAnomalies, DuplicateRecords,
      ProviderCredentials]"

text \<open>
  The missing-field set in the words of the specification: each required field that is
  null, plus the label of the either-or contact group when both its members are null.
\<close>

definition missing_field_set :: "patient_record \<Rightarrow> string set" where
  "missing_field_set p =
     (if name p = None then {''name''} else {})
     \<union> (if date_of_birth p = None then {''date_of_birth''} else {})
     \<union> (if insurance_id p = None then {''insurance_id''} else {})
     \<union> (if primary_provider p = None then {''primary_provider''} else {})
     \<union> (if contact_phone p = None \<and> contact_email p = None then {''contact_info''} else {})"

text \<open>
  A duplicate group in the words of the specification: the active records with a given
  name and birth date; it is flagged when it has more than one member.
\<close>

definition group_members :: "database \<Rightarrow> string \<Rightarrow> date \<Rightarrow> patient_record list" where
  "group_members d n b =
     filter (\<lambda>p. is_active p = Some True \<and> name p = Some n \<and> date_of_birth p = Some b)
       (patient_records d)"

definition flagged_groups :: "database \<Rightarrow> (string \<times> date) set" where
  "flagged_groups d = {k. 1 < length (group_members d (fst k) (snd k))}"

text \<open>
  The calculated total in the words of the specification: the sum of the amounts of a
  claim's line items, 0 when it has none (a null amount adds nothing).
\<close>

definition child_amounts_sum :: "database \<Rightarrow> claim \<Rightarrow> rat" where
  "child_amounts_sum d c =
     sum_list (map (\<lambda>i. case line_item_amount i of None \<Rightarrow> 0 | Some a \<Rightarrow> a)
                 (filter (\<lambda>i. item_claim_id i = claim_id c) (claims_line_items d)))"

text \<open>
  The \<open>n\<close>-th audit write returns to the rule: its insert succeeds, or the rollback
  in its handler does.
\<close>

definition audit_write_returns :: "env \<Rightarrow> nat \<Rightarrow> bool" where
  "audit_write_returns e n \<longleftrightarrow> \<not> (audit_write_fails e n \<and> rollback_fails e n)"

section \<open>A sample database\<close>

text \<open>
  Five patients, three claims with their line items and three providers, on day 200.
  Patients P1, P2 and P3 share name and birth date; P4 and P5 have no name.
\<close>

definition sample_patients :: "patient_record list" where
  "sample_patients =
     [\<lparr>patient_id = ''P1'', name = Some ''Ann Lee'', date_of_birth = Some 100,
       insurance_id = None, primary_provider = None,
       contact_phone = None, contact_email = None, is_active = Some True\<rparr>,
      \<lparr>patient_id = ''P2'', name = Some ''Ann Lee'', date_of_birth = Some 100,
       insurance_id = Some ''I2'', primary_provider = Some ''D1'',
       contact_phone = Some ''555'', contact_email = Some ''a@b'', is_active = Some True\<rparr>,
      \<lparr>patient_id = ''P3'', name = Some ''Ann Lee'', date_of_birth = Some 100,
       insurance_id = Some ''I3'', primary_provider = Some ''D1'',
       contact_phone = Some ''556'', contact_email = None, is_active = Some True\<rparr>,
      \<lparr>patient_id = ''P4'', name = None, date_of_birth = Some 100,
       insurance_id = Some ''I4'', primary_provider = Some ''D1'',
       contact_phone = Some ''557'', contact_email = None, is_active = Some True\<rparr>,
      \<lparr>patient_id = ''P5'', name = None, date_of_birth = Some 100,
       insurance_id = Some ''I4'', primary_provider = Some ''D1'',
       contact_phone = Some ''557'', contact_email = None, is_active = Some True\<rparr>]"

definition sample_claims :: "claim list" where
  "sample_claims =
     [\<lparr>claim_id = ''C1'', claim_patient_id = ''P1'', claim_provider_id = ''D1'',
       claim_total_amount = Some 0,
       service_date = Some 10, submission_date = Some 5, processing_date = Some 3\<rparr>,
      \<lparr>claim_id = ''C2'', claim_patient_id = ''P2'', claim_provider_id = ''D1'',
       claim_total_amount = Some 100,
       service_date = Some 10, submission_date = Some 12, processing_date = Some 11\<rparr>,
      \<lparr>claim_id = ''C3'', claim_patient_id = ''P3'', claim_provider_id = ''D2'',
       claim_total_amount = Some 100,
       service_date = Some 10, submission_date = Some 12, processing_date = None\<rparr>]"

definition sample_line_items :: "line_item list" where
  "sample_line_items =
     [\<lparr>line_item_id = ''L1'', item_claim_id = ''C1'', line_item_amount = Some 5\<rparr>,
      \<lparr>line_item_id = ''L2'', item_claim_id = ''C2'', line_item_amount = Some (20001 / 200)\<rparr>,
      \<lparr>line_item_id = ''L3'', item_claim_id = ''C3'', line_item_amount = Some 60\<rparr>,
      \<lparr>line_item_id = ''L4'', item_claim_id = ''C3'', line_item_amount = Some (2001 / 50)\<rparr>,
      \<lparr>line_item_id = ''L5'', item_claim_id = ''C3'', line_item_amount = None\<rparr>]"

definition sample_providers :: "provider list" where
  "sample_providers =
     [\<lparr>provider_id = ''D1'', provider_name = Some ''Dr One'', license_number = Some ''N1'',
       license_state = Some ''CA'', license_expiry_date = Some 200,
       provider_is_active = Some True\<rparr>,
      \<lparr>provider_id = ''D2'', provider_name = Some ''Dr Two'', license_number = Some ''N2'',
       license_state = Some ''NY'', license_expiry_date = Some 199,
       provider_is_active = Some True\<rparr>,
      \<lparr>provider_id = ''D3'', provider_name = Some ''Dr Three'', license_number = None,
       license_state = None, license_expiry_date = Some 100,
       provider_is_active = Some False\<rparr>]"

definition sample_db :: database where
  "sample_db =
     \<lparr>patient_records = sample_patients, claims = sample_claims,
      claims_line_items = sample_line_items, providers = sample_providers,
      current_date = 200\<rparr>"

text \<open>
  Four runs on the sample database: one where nothing fails, one where the second
  audit write fails and its rollback returns, one where the query of the temporal check
  fails, and one where the second audit write fails and its rollback raises.
\<close>

definition sample_env :: env where
  "sample_env =
     \<lparr>db = sample_db, connect_fails = False, query_fails = (\<lambda>k. False),
      audit_write_fails = (\<lambda>n. False), rollback_fails = (\<lambda>n. False), fmt_money = (\<lambda>x. ''?''), now = ''2024-01-01T00:00:00''\<rparr>"

definition sample_env_audit_failure :: env where
  "sample_env_audit_failure = sample_env\<lparr>audit_write_fails := (\<lambda>n. n = 1)\<rparr>"

definition sample_env_query_failure :: env where
  "sample_env_query_failure = sample_env\<lparr>query_fails := (\<lambda>k. k = TemporalAnomalies)\<rparr>"

definition sample_env_rollback_failure :: env where
  "sample_env_rollback_failure =
     sample_env\<lparr>audit_write_fails := (\<lambda>n. n = 1), rollback_fails := (\<lambda>n. n = 1)\<rparr>"

section \<open>The audit sink and the five rules: shared facts\<close>

lemma log_quality_issue_frame:
  assumes "log_quality_issue e f s = (r, s')"
  shows "connection s' = connection s" and "connection_open s' = connection_open s"
    and "writes_attempted s' = Suc (writes_attempted s)"
  using assms by (auto simp: log_quality_issue_def split: if_splits)

lemma log_quality_issue_returns:
  assumes "audit_write_returns e (writes_attempted s)"
  shows "fst (log_quality_issue e f s) = Inr ()"
  using assms by (simp add: log_quality_issue_def audit_write_returns_def)

lemma log_rows_frame:
  "connection (snd (log_rows e mk rs s)) = connection s
   \<and> connection_open (snd (log_rows e mk rs s)) = connection_open s"
proof (induction rs arbitrary: s)
  case Nil
  then show ?case by simp
next
  case (Cons r rs)
  show ?case
  proof (cases "mk r")
    case (Inl err)
    then show ?thesis by simp
  next
    case (Inr f)
    obtain u s1 where l: "log_quality_issue e f s = (u, s1)" by (cases "log_quality_issue e f s")
    show ?thesis
      using Inr l log_quality_issue_frame(1,2)[OF l] Cons.IH[of s1]
      by (cases u) simp_all
  qed
qed

lemma log_rows_total:
  assumes "\<And>r. r \<in> set rs \<Longrightarrow> \<exists>f. mk r = Inr f"
    and "\<And>n. writes_attempted s \<le> n \<Longrightarrow> n < writes_attempted s + length rs
           \<Longrightarrow> audit_write_returns e n"
  shows "fst (log_rows e mk rs s) = Inr ()
     \<and> writes_attempted (snd (log_rows e mk rs s)) = writes_attempted s + length rs"
  using assms
proof (induction rs arbitrary: s)
  case Nil
  then show ?case by simp
next
  case (Cons r rs)
  from Cons.prems(1) obtain f where f: "mk r = Inr f" by auto
  have "audit_write_returns e (writes_attempted s)"
    using Cons.prems(2)[of "writes_attempted s"] by simp
  then have "fst (log_quality_issue e f s) = Inr ()"
    by (rule log_quality_issue_returns)
  then obtain s1 where l: "log_quality_issue e f s = (Inr (), s1)"
    by (cases "log_quality_issue e f s") auto
  have w: "writes_attempted s1 = Suc (writes_attempted s)"
    by (rule log_quality_issue_frame(3)[OF l])
  have "fst (log_rows e mk rs s1) = Inr ()
     \<and> writes_attempted (snd (log_rows e mk rs s1)) = writes_attempted s1 + length rs"
  proof (rule Cons.IH)
    show "\<And>r'. r' \<in> set rs \<Longrightarrow> \<exists>f. mk r' = Inr f" using Cons.prems(1) by simp
    show "\<And>n. writes_attempted s1 \<le> n \<Longrightarrow> n < writes_attempted s1 + length rs
           \<Longrightarrow> audit_write_returns e n"
      using Cons.prems(2) w by simp
  qed
  then show ?case by (simp add: f l w)
qed

lemma log_rows_result_indep:
  assumes "\<And>n. audit_write_returns e n" and "\<And>n. audit_write_returns e' n"
  shows "fst (log_rows e mk rs s) = fst (log_rows e' mk rs s')"
proof (induction rs arbitrary: s s')
  case Nil
  show ?case by simp
next
  case (Cons r rs)
  show ?case
  proof (cases "mk r")
    case (Inl err)
    then show ?thesis by simp
  next
    case (Inr f)
    have "fst (log_quality_issue e f s) = Inr ()" "fst (log_quality_issue e' f s') = Inr ()"
      using assms by (simp_all add: log_quality_issue_returns)
    then obtain s1 s1' where "log_quality_issue e f s = (Inr (), s1)"
        "log_quality_issue e' f s' = (Inr (), s1')"
      by (cases "log_quality_issue e f s", cases "log_quality_issue e' f s'") auto
    then show ?thesis using Inr Cons.IH[of s1 s1'] by simp
  qed
qed

lemma and_then_frame:
  assumes "\<And>s. connection (snd (m s)) = connection s"
    and "\<And>x s. connection (snd (f x s)) = connection s"
  shows "connection (snd (and_then m f s)) = connection s"
  using assms(1)[of s] assms(2) by (auto simp: and_then_def split: prod.splits sum.splits)

lemma duplicate_query_rows:
  "r \<in> set (duplicate_query d) \<Longrightarrow> 1 < duplicate_count r \<and> length (patient_ids r) = duplicate_count r"
  by (auto simp: duplicate_query_def duplicate_groups_def duplicate_row_of_def Let_def)

lemma duplicate_finding_Inr:
  "r \<in> set (duplicate_query d) \<Longrightarrow> \<exists>f. duplicate_finding r = Inr f"
  using duplicate_query_rows[of r d]
  by (cases "patient_ids r") (auto simp: duplicate_finding_def)

text \<open>
  Every check has one shape: the rows of its query are logged, then its dictionary is
  returned.
\<close>

lemma check_returns:
  assumes "fst (log_rows e mk rows s) = Inr ()"
  shows "(case log_rows e mk rows s of (Inl err, s') \<Rightarrow> (Inl err, s') | (Inr u, s') \<Rightarrow> (Inr res, s'))
     = (Inr res, snd (log_rows e mk rows s))"
  using assms by (cases "log_rows e mk rows s") auto

lemma run_check_fails:
  "query_fails e k \<Longrightarrow> run_check k e s = (Inl (DataAccessError k), s)"
  by (cases k)
    (simp_all add: check_patient_completeness_def check_claims_discrepancies_def
      check_temporal_anomalies_def check_duplicate_records_def check_provider_credentials_def
      execute_query_def)

lemma run_check_frame:
  "connection (snd (run_check k e s)) = connection s"
proof (cases k)
  case PatientCompleteness
  then show ?thesis
    using log_rows_frame[of e "\<lambda>r. Inr (completeness_finding r)" "completeness_query (db e)" s]
    by (auto simp: check_patient_completeness_def execute_query_def split: prod.splits sum.splits)
next
  case ClaimsDiscrepancies
  then show ?thesis
    using log_rows_frame[of e "\<lambda>r. Inr (discrepancy_finding e r)" "discrepancy_query (db e)" s]
    by (auto simp: check_claims_discrepancies_def execute_query_def split: prod.splits sum.splits)
next
  case TemporalAnomalies
  then show ?thesis
    using log_rows_frame[of e "\<lambda>r. Inr (temporal_finding r)" "temporal_query (db e)" s]
    by (auto simp: check_temporal_anomalies_def execute_query_def split: prod.splits sum.splits)
next
  case DuplicateRecords
  then show ?thesis
    using log_rows_frame[of e duplicate_finding "duplicate_query (db e)" s]
    by (auto simp: check_duplicate_records_def execute_query_def split: prod.splits sum.splits)
next
  case ProviderCredentials
  then show ?thesis
    using log_rows_frame[of e "\<lambda>r. Inr (credential_finding r)" "credentials_query (db e)" s]
    by (auto simp: check_provider_credentials_def execute_query_def split: prod.splits sum.splits)
qed

lemma run_check_ok:
  assumes "\<not> query_fails e k"
    and "\<And>n. writes_attempted s \<le> n \<Longrightarrow> n < writes_attempted s + row_count k (db e)
           \<Longrightarrow> audit_write_returns e n"
  shows "\<exists>r. fst (run_check k e s) = Inr r \<and> issues_found r = row_count k (db e)"
    and "writes_attempted (snd (run_check k e s)) = writes_attempted s + row_count k (db e)"
proof -
  have "(\<exists>r. fst (run_check k e s) = Inr r \<and> issues_found r = row_count k (db e))
      \<and> writes_attempted (snd (run_check k e s)) = writes_attempted s + row_count k (db e)"
  proof (cases k)
    case PatientCompleteness
    have "fst (log_rows e (\<lambda>r. Inr (completeness_finding r)) (completeness_query (db e)) s) = Inr ()
      \<and> writes_attempted (snd (log_rows e (\<lambda>r. Inr (completeness_finding r))
            (completeness_query (db e)) s)) = writes_attempted s + length (completeness_query (db e))"
      using assms(2) PatientCompleteness by (intro log_rows_total) simp_all
    then show ?thesis
      using assms(1) PatientCompleteness
      by (simp add: check_patient_completeness_def execute_query_def check_returns)
  next
    case ClaimsDiscrepancies
    have "fst (log_rows e (\<lambda>r. Inr (discrepancy_finding e r)) (discrepancy_query (db e)) s) = Inr ()
      \<and> writes_attempted (snd (log_rows e (\<lambda>r. Inr (discrepancy_finding e r))
            (discrepancy_query (db e)) s)) = writes_attempted s + length (discrepancy_query (db e))"
      using assms(2) ClaimsDiscrepancies by (intro log_rows_total) simp_all
    then show ?thesis
      using assms(1) ClaimsDiscrepancies
      by (simp add: check_claims_discrepancies_def execute_query_def check_returns)
  next
    case TemporalAnomalies
    have "fst (log_rows e (\<lambda>r. Inr (temporal_finding r)) (temporal_query (db e)) s) = Inr ()
      \<and> writes_attempted (snd (log_rows e (\<lambda>r. Inr (temporal_finding r))
            (temporal_query (db e)) s)) = writes_attempted s + length (temporal_query (db e))"
      using assms(2) TemporalAnomalies by (intro log_rows_total) simp_all
    then show ?thesis
      using assms(1) TemporalAnomalies
      by (simp add: check_temporal_anomalies_def execute_query_def check_returns)
  next
    case DuplicateRecords
    have "fst (log_rows e duplicate_finding (duplicate_query (db e)) s) = Inr ()
      \<and> writes_attempted (snd (log_rows e duplicate_finding (duplicate_query (db e)) s))
          = writes_attempted s + length (duplicate_query (db e))"
      using assms(2) DuplicateRecords
      by (intro log_rows_total) (simp_all add: duplicate_finding_Inr)
    then show ?thesis
      using assms(1) DuplicateRecords
      by (simp add: check_duplicate_records_def execute_query_def check_returns)
  next
    case ProviderCredentials
    have "fst (log_rows e (\<lambda>r. Inr (credential_finding r)) (credentials_query (db e)) s) = Inr ()
      \<and> writes_attempted (snd (log_rows e (\<lambda>r. Inr (credential_finding r))
            (credentials_query (db e)) s)) = writes_attempted s + length (credentials_query (db e))"
      using assms(2) ProviderCredentials by (intro log_rows_total) simp_all
    then show ?thesis
      using assms(1) ProviderCredentials
      by (simp add: check_provider_credentials_def execute_query_def check_returns)
  qed
  then show "\<exists>r. fst (run_check k e s) = Inr r \<and> issues_found r = row_count k (db e)"
    and "writes_attempted (snd (run_check k e s)) = writes_attempted s + row_count k (db e)"
    by simp_all
qed

lemma run_check_result_indep:
  assumes "\<And>n. audit_write_returns e n"
  shows "fst (run_check k e s) = fst (run_check k (e\<lparr>audit_write_fails := (\<lambda>n. False)\<rparr>) s)"
proof -
  let ?e' = "e\<lparr>audit_write_fails := (\<lambda>n. False)\<rparr>"
  have r': "\<And>n. audit_write_returns ?e' n"
    by (simp add: audit_write_returns_def)
  note indep = log_rows_result_indep[OF assms r']
  show ?thesis
  proof (cases k)
    case PatientCompleteness
    then show ?thesis
      using indep[of "\<lambda>r. Inr (completeness_finding r)" "completeness_query (db e)" s s]
      by (auto simp: check_patient_completeness_def execute_query_def split: prod.splits sum.splits)
  next
    case ClaimsDiscrepancies
    have "discrepancy_finding ?e' = discrepancy_finding e"
      by (rule ext) (simp add: discrepancy_finding_def)
    with ClaimsDiscrepancies show ?thesis
      using indep[of "\<lambda>r. Inr (discrepancy_finding e r)" "discrepancy_query (db e)" s s]
      by (auto simp: check_claims_discrepancies_def execute_query_def split: prod.splits sum.splits)
  next
    case TemporalAnomalies
    then show ?thesis
      using indep[of "\<lambda>r. Inr (temporal_finding r)" "temporal_query (db e)" s s]
      by (auto simp: check_temporal_anomalies_def execute_query_def split: prod.splits sum.splits)
  next
    case DuplicateRecords
    then show ?thesis
      using indep[of duplicate_finding "duplicate_query (db e)" s s]
      by (auto simp: check_duplicate_records_def execute_query_def split: prod.splits sum.splits)
  next
    case ProviderCredentials
    then show ?thesis
      using indep[of "\<lambda>r. Inr (credential_finding r)" "credentials_query (db e)" s s]
      by (auto simp: check_provider_credentials_def execute_query_def split: prod.splits sum.splits)
  qed
qed

lemma and_then_Inr: "m s = (Inr x, s') \<Longrightarrow> and_then m f s = f x s'"
  by (simp add: and_then_def)

lemma and_then_Inl: "m s = (Inl err, s') \<Longrightarrow> and_then m f s = (Inl err, s')"
  by (simp add: and_then_def)

lemma run_check_ok_eq:
  assumes "\<not> query_fails e k"
    and "\<And>n. n < writes_attempted s + row_count k (db e) \<Longrightarrow> audit_write_returns e n"
  obtains r where "run_check k e s = (Inr r, snd (run_check k e s))"
    and "writes_attempted (snd (run_check k e s)) = writes_attempted s + row_count k (db e)"
proof -
  from run_check_ok(1)[OF assms(1), of s] assms(2)
  obtain r where "fst (run_check k e s) = Inr r" by auto
  then have "run_check k e s = (Inr r, snd (run_check k e s))"
    by (simp add: prod_eq_iff)
  moreover have "writes_attempted (snd (run_check k e s)) = writes_attempted s + row_count k (db e)"
    using run_check_ok(2)[OF assms(1), of s] assms(2) by simp
  ultimately show ?thesis by (rule that)
qed

lemma and_then_report:
  assumes "and_then m f s = (Inr rep, s')"
  obtains x s1 where "m s = (Inr x, s1)" "f x s1 = (Inr rep, s')"
  using assms by (auto simp: and_then_def split: prod.splits sum.splits)

lemma run_checks_report:
  assumes "run_checks e s = (Inr rep, s')"
  shows "\<exists>cs. rep = make_report e cs"
proof -
  from assms obtain r1 s1 where 1: "and_then (check_claims_discrepancies e) (\<lambda>r2.
     and_then (check_temporal_anomalies e) (\<lambda>r3.
     and_then (check_duplicate_records e) (\<lambda>r4.
     and_then (check_provider_credentials e) (\<lambda>r5 s.
       (Inr (make_report e
               [(''patient_completeness'', r1),
                (''claims_discrepancies'', r2),
                (''temporal_anomalies'', r3),
                (''duplicate_records'', r4),
                (''provider_credentials'', r5)]), s))))) s1 = (Inr rep, s')"
    unfolding run_checks_def by (rule and_then_report)
  from 1 obtain r2 s2 where 2: "
     and_then (check_temporal_anomalies e) (\<lambda>r3.
     and_then (check_duplicate_records e) (\<lambda>r4.
     and_then (check_provider_credentials e) (\<lambda>r5 s.
       (Inr (make_report e
               [(''patient_completeness'', r1),
                (''claims_discrepancies'', r2),
                (''temporal_anomalies'', r3),
                (''duplicate_records'', r4),
                (''provider_credentials'', r5)]), s)))) s2 = (Inr rep, s')"
    by (rule and_then_report)
  from 2 obtain r3 s3 where 3: "
     and_then (check_duplicate_records e) (\<lambda>r4.
     and_then (check_provider_credentials e) (\<lambda>r5 s.
       (Inr (make_report e
               [(''patient_completeness'', r1),
                (''claims_discrepancies'', r2),
                (''temporal_anomalies'', r3),
                (''duplicate_records'', r4),
                (''provider_credentials'', r5)]), s))) s3 = (Inr rep, s')"
    by (rule and_then_report)
  from 3 obtain r4 s4 where 4: "
     and_then (check_provider_credentials e) (\<lambda>r5 s.
       (Inr (make_report e
               [(''patient_completeness'', r1),
                (''claims_discrepancies'', r2),
                (''temporal_anomalies'', r3),
                (''duplicate_records'', r4),
                (''provider_credentials'', r5)]), s)) s4 = (Inr rep, s')"
    by (rule and_then_report)
  from 4 obtain r5 s5 where "(Inr (make_report e
               [(''patient_completeness'', r1),
                (''claims_discrepancies'', r2),
                (''temporal_anomalies'', r3),
                (''duplicate_records'', r4),
                (''provider_credentials'', r5)]), s5) = (Inr rep, s')"
    by (rule and_then_report) blast
  then show ?thesis by blast
qed


lemmas check_frames =
  run_check_frame[of PatientCompleteness, simplified]
  run_check_frame[of ClaimsDiscrepancies, simplified]
  run_check_frame[of TemporalAnomalies, simplified]
  run_check_frame[of DuplicateRecords, simplified]
  run_check_frame[of ProviderCredentials, simplified]

lemma run_checks_frame: "connection (snd (run_checks e s)) = connection s"
  unfolding run_checks_def
  apply (rule and_then_frame, rule check_frames)
  apply (rule and_then_frame, rule check_frames)
  apply (rule and_then_frame, rule check_frames)
  apply (rule and_then_frame, rule check_frames)
  apply (rule and_then_frame, rule check_frames)
  apply simp
  done

lemma run_all_checks_report:
  assumes "run_all_checks e s = (Inr rep, s')"
  shows "\<exists>cs. rep = make_report e cs"
proof (cases "connect_fails e")
  case True
  with assms show ?thesis by (simp add: run_all_checks_def connect_def)
next
  case False
  let ?s1 = "s\<lparr>connection := True, connection_open := True\<rparr>"
  from False assms have "fst (run_checks e ?s1) = Inr rep"
    by (simp add: run_all_checks_def connect_def split: prod.splits)
  then have "run_checks e ?s1 = (Inr rep, snd (run_checks e ?s1))"
    by (simp add: prod_eq_iff)
  then show ?thesis by (rule run_checks_report)
qed

lemma run_all_checks_connected:
  assumes "\<not> connect_fails e"
  shows "run_all_checks e s =
     (fst (run_checks e (s\<lparr>connection := True, connection_open := True\<rparr>)),
      disconnect (snd (run_checks e (s\<lparr>connection := True, connection_open := True\<rparr>))))"
  using assms by (simp add: run_all_checks_def connect_def split: prod.splits)

section \<open>Evaluation on the sample database\<close>

lemmas sample_defs = sample_env_def sample_db_def sample_patients_def sample_claims_def
  sample_line_items_def sample_providers_def sample_env_audit_failure_def
  sample_env_query_failure_def sample_env_rollback_failure_def init_checker_def

lemmas eval_defs =
  run_all_checks_def connect_def disconnect_def run_checks_def and_then_def
  check_patient_completeness_def check_claims_discrepancies_def check_temporal_anomalies_def
  check_duplicate_records_def check_provider_credentials_def execute_query_def
  log_quality_issue_def make_report_def
  completeness_query_def completeness_where_def completeness_row_of_def missing_fields_of_def
  completeness_finding_def array_remove_null_def
  discrepancy_query_def claim_line_totals_def claim_key_def joined_items_def sum_amounts_def
  discrepancy_row_of_def discrepancy_finding_def round2_def
  temporal_query_def temporal_where_def temporal_row_of_def anomaly_type_of_def sql_lt_def
  temporal_finding_def
  duplicate_query_def duplicate_groups_def duplicate_candidates_def duplicate_candidate_def
  duplicate_row_of_def group_ids_def duplicate_finding_def
  credentials_query_def expired_candidate_def credential_row_of_def credential_finding_def

lemma sample_row_counts:
  "length (completeness_query sample_db) = 3"
  "length (discrepancy_query sample_db) = 2"
  "length (temporal_query sample_db) = 2"
  "length (duplicate_query sample_db) = 1"
  "length (credentials_query sample_db) = 1"
      apply (simp add: sample_defs completeness_query_def completeness_where_def)
     apply (simp add: sample_defs discrepancy_query_def claim_line_totals_def claim_key_def
      joined_items_def sum_amounts_def array_remove_null_def discrepancy_row_of_def)
    apply (simp add: sample_defs temporal_query_def temporal_where_def sql_lt_def)
   apply (simp add: sample_defs duplicate_query_def duplicate_groups_def duplicate_candidates_def
      duplicate_candidate_def duplicate_row_of_def group_ids_def)
  apply (simp add: sample_defs credentials_query_def expired_candidate_def)
  done

section \<open>The run as a whole\<close>

text \<open>
  Claim C1 says that when exactly one rule's query raises a \<open>DataAccessError\<close>, the
  other four rules still execute and their results appear in the returned report.
  \<open>run_all_checks\<close> has a \<open>try\<close> with a \<open>finally\<close> and no \<open>except\<close>, and
  \<open>execute_query\<close> re-raises: on the sample database with the temporal query failing,
  the run returns no report but the error, and the two rules registered after the
  failing one write nothing although each has a row to report.
\<close>

theorem query_failure_not_contained:
  "query_fails sample_env_query_failure TemporalAnomalies
   \<and> \<not> query_fails sample_env_query_failure PatientCompleteness
   \<and> \<not> query_fails sample_env_query_failure ClaimsDiscrepancies
   \<and> \<not> query_fails sample_env_query_failure DuplicateRecords
   \<and> \<not> query_fails sample_env_query_failure ProviderCredentials
   \<and> fst (run_all_checks sample_env_query_failure init_checker)
       = Inl (DataAccessError TemporalAnomalies)
   \<and> writes_attempted (snd (run_all_checks sample_env_query_failure init_checker)) = 5
   \<and> row_count DuplicateRecords sample_db = 1
   \<and> row_count ProviderCredentials sample_db = 1"
  by (simp add: sample_defs eval_defs)

text \<open>
  Claim C1 as amended: when the connection is acquired and exactly one rule's query
  raises, \<open>run_all_checks\<close> raises that rule's \<open>DataAccessError\<close> and returns no
  report; the rules registered before the failing one have run (each wrote one audit
  row per result row), the rules after it never execute, and the connection is closed.
  The run is one in which the query raises: every audit write of the rules before it
  returns, so the run gets as far as the query.
\<close>

theorem query_failure_aborts_run:
  assumes "\<not> connect_fails e" and "query_fails e k"
    and "\<forall>k'. k' \<noteq> k \<longrightarrow> \<not> query_fails e k'"
    and "\<forall>n. n < writes_attempted s
               + sum_list (map (\<lambda>k'. row_count k' (db e))
                    (takeWhile (\<lambda>k'. k' \<noteq> k) registration_order))
            \<longrightarrow> audit_write_returns e n"
  shows "fst (run_all_checks e s) = Inl (DataAccessError k)
    \<and> writes_attempted (snd (run_all_checks e s)) =
        writes_attempted s
        + sum_list (map (\<lambda>k'. row_count k' (db e)) (takeWhile (\<lambda>k'. k' \<noteq> k) registration_order))
    \<and> \<not> connection_open (snd (run_all_checks e s))"
proof -
  let ?s0 = "s\<lparr>connection := True, connection_open := True\<rparr>"
  let ?n = "\<lambda>k'. row_count k' (db e)"
  have closed: "\<not> connection_open (disconnect (snd (run_checks e ?s0)))"
    using run_checks_frame[of e ?s0] by (simp add: disconnect_def)
  have wd: "\<And>t. writes_attempted (disconnect t) = writes_attempted t"
    by (simp add: disconnect_def)
  have step: "\<exists>r. run_check k' e t = (Inr r, snd (run_check k' e t))
        \<and> writes_attempted (snd (run_check k' e t)) = writes_attempted t + ?n k'"
    if "k' \<noteq> k" and "\<And>n. n < writes_attempted t + ?n k' \<Longrightarrow> audit_write_returns e n"
    for k' t
  proof -
    from that(1) assms(3) have "\<not> query_fails e k'" by blast
    from run_check_ok_eq[OF this that(2)] show ?thesis by blast
  qed
  have "run_checks e ?s0 = (Inl (DataAccessError k), snd (run_checks e ?s0))
     \<and> writes_attempted (snd (run_checks e ?s0)) = writes_attempted ?s0
        + sum_list (map ?n (takeWhile (\<lambda>k'. k' \<noteq> k) registration_order))"
  proof (cases k)
    case PatientCompleteness
    have "check_patient_completeness e ?s0 = (Inl (DataAccessError k), ?s0)"
      using run_check_fails[OF assms(2), of ?s0] PatientCompleteness by simp
    then have "run_checks e ?s0 = (Inl (DataAccessError k), ?s0)"
      unfolding run_checks_def by (simp add: and_then_def)
    then show ?thesis using PatientCompleteness by (simp add: registration_order_def)
  next
    case ClaimsDiscrepancies
    have H: "\<And>n. n < writes_attempted s + ?n PatientCompleteness \<Longrightarrow> audit_write_returns e n"
      using assms(4) ClaimsDiscrepancies by (simp add: registration_order_def)
    define s1 where "s1 = snd (run_check PatientCompleteness e ?s0)"
    have "\<exists>r. run_check PatientCompleteness e ?s0 = (Inr r, s1)
        \<and> writes_attempted s1 = writes_attempted ?s0 + ?n PatientCompleteness"
      unfolding s1_def using ClaimsDiscrepancies H by (intro step) simp_all
    then obtain r1 where 1: "check_patient_completeness e ?s0 = (Inr r1, s1)"
      and w1: "writes_attempted s1 = writes_attempted s + ?n PatientCompleteness" by auto
    have 2: "check_claims_discrepancies e s1 = (Inl (DataAccessError k), s1)"
      using run_check_fails[OF assms(2), of s1] ClaimsDiscrepancies by simp
    have "run_checks e ?s0 = (Inl (DataAccessError k), s1)"
      unfolding run_checks_def by (simp add: and_then_def 1 2)
    then show ?thesis using ClaimsDiscrepancies w1 by (simp add: registration_order_def)
  next
    case TemporalAnomalies
    have H: "\<And>n. n < writes_attempted s + (?n PatientCompleteness + ?n ClaimsDiscrepancies)
          \<Longrightarrow> audit_write_returns e n"
      using assms(4) TemporalAnomalies by (simp add: registration_order_def)
    define s1 where "s1 = snd (run_check PatientCompleteness e ?s0)"
    define s2 where "s2 = snd (run_check ClaimsDiscrepancies e s1)"
    have "\<exists>r. run_check PatientCompleteness e ?s0 = (Inr r, s1)
        \<and> writes_attempted s1 = writes_attempted ?s0 + ?n PatientCompleteness"
      unfolding s1_def using TemporalAnomalies H by (intro step) simp_all
    then obtain r1 where 1: "check_patient_completeness e ?s0 = (Inr r1, s1)"
      and w1: "writes_attempted s1 = writes_attempted s + ?n PatientCompleteness" by auto
    have "\<exists>r. run_check ClaimsDiscrepancies e s1 = (Inr r, s2)
        \<and> writes_attempted s2 = writes_attempted s1 + ?n ClaimsDiscrepancies"
      unfolding s2_def using TemporalAnomalies H w1 by (intro step) simp_all
    then obtain r2 where 2: "check_claims_discrepancies e s1 = (Inr r2, s2)"
      and w2: "writes_attempted s2 = writes_attempted s1 + ?n ClaimsDiscrepancies" by auto
    have 3: "check_temporal_anomalies e s2 = (Inl (DataAccessError k), s2)"
      using run_check_fails[OF assms(2), of s2] TemporalAnomalies by simp
    have "run_checks e ?s0 = (Inl (DataAccessError k), s2)"
      unfolding run_checks_def by (simp add: and_then_def 1 2 3)
    then show ?thesis using TemporalAnomalies w1 w2 by (simp add: registration_order_def)
  next
    case DuplicateRecords
    have H: "\<And>n. n < writes_attempted s
          + (?n PatientCompleteness + (?n ClaimsDiscrepancies + ?n TemporalAnomalies))
          \<Longrightarrow> audit_write_returns e n"
      using assms(4) DuplicateRecords by (simp add: registration_order_def)
    define s1 where "s1 = snd (run_check PatientCompleteness e ?s0)"
    define s2 where "s2 = snd (run_check ClaimsDiscrepancies e s1)"
    define s3 where "s3 = snd (run_check TemporalAnomalies e s2)"
    have "\<exists>r. run_check PatientCompleteness e ?s0 = (Inr r, s1)
        \<and> writes_attempted s1 = writes_attempted ?s0 + ?n PatientCompleteness"
      unfolding s1_def using DuplicateRecords H by (intro step) simp_all
    then obtain r1 where 1: "check_patient_completeness e ?s0 = (Inr r1, s1)"
      and w1: "writes_attempted s1 = writes_attempted s + ?n PatientCompleteness" by auto
    have "\<exists>r. run_check ClaimsDiscrepancies e s1 = (Inr r, s2)
        \<and> writes_attempted s2 = writes_attempted s1 + ?n ClaimsDiscrepancies"
      unfolding s2_def using DuplicateRecords H w1 by (intro step) simp_all
    then obtain r2 where 2: "check_claims_discrepancies e s1 = (Inr r2, s2)"
      and w2: "writes_attempted s2 = writes_attempted s1 + ?n ClaimsDiscrepancies" by auto
    have "\<exists>r. run_check TemporalAnomalies e s2 = (Inr r, s3)
        \<and> writes_attempted s3 = writes_attempted s2 + ?n TemporalAnomalies"
      unfolding s3_def using DuplicateRecords H w1 w2 by (intro step) simp_all
    then obtain r3 where 3: "check_temporal_anomalies e s2 = (Inr r3, s3)"
      and w3: "writes_attempted s3 = writes_attempted s2 + ?n TemporalAnomalies" by auto
    have 4: "check_duplicate_records e s3 = (Inl (DataAccessError k), s3)"
      using run_check_fails[OF assms(2), of s3] DuplicateRecords by simp
    have "run_checks e ?s0 = (Inl (DataAccessError k), s3)"
      unfolding run_checks_def by (simp add: and_then_def 1 2 3 4)
    then show ?thesis using DuplicateRecords w1 w2 w3 by (simp add: registration_order_def)
  next
    case ProviderCredentials
    have H: "\<And>n. n < writes_attempted s
          + (?n PatientCompleteness + (?n ClaimsDiscrepancies
             + (?n TemporalAnomalies + ?n DuplicateRecords)))
          \<Longrightarrow> audit_write_returns e n"
      using assms(4) ProviderCredentials by (simp add: registration_order_def)
    define s1 where "s1 = snd (run_check PatientCompleteness e ?s0)"
    define s2 where "s2 = snd (run_check ClaimsDiscrepancies e s1)"
    define s3 where "s3 = snd (run_check TemporalAnomalies e s2)"
    define s4 where "s4 = snd (run_check DuplicateRecords e s3)"
    have "\<exists>r. run_check PatientCompleteness e ?s0 = (Inr r, s1)
        \<and> writes_attempted s1 = writes_attempted ?s0 + ?n PatientCompleteness"
      unfolding s1_def using ProviderCredentials H by (intro step) simp_all
    then obtain r1 where 1: "check_patient_completeness e ?s0 = (Inr r1, s1)"
      and w1: "writes_attempted s1 = writes_attempted s + ?n PatientCompleteness" by auto
    have "\<exists>r. run_check ClaimsDiscrepancies e s1 = (Inr r, s2)
        \<and> writes_attempted s2 = writes_attempted s1 + ?n ClaimsDiscrepancies"
      unfolding s2_def using ProviderCredentials H w1 by (intro step) simp_all
    then obtain r2 where 2: "check_claims_discrepancies e s1 = (Inr r2, s2)"
      and w2: "writes_attempted s2 = writes_attempted s1 + ?n ClaimsDiscrepancies" by auto
    have "\<exists>r. run_check TemporalAnomalies e s2 = (Inr r, s3)
        \<and> writes_attempted s3 = writes_attempted s2 + ?n TemporalAnomalies"
      unfolding s3_def using ProviderCredentials H w1 w2 by (intro step) simp_all
    then obtain r3 where 3: "check_temporal_anomalies e s2 = (Inr r3, s3)"
      and w3: "writes_attempted s3 = writes_attempted s2 + ?n TemporalAnomalies" by auto
    have "\<exists>r. run_check DuplicateRecords e s3 = (Inr r, s4)
        \<and> writes_attempted s4 = writes_attempted s3 + ?n DuplicateRecords"
      unfolding s4_def using ProviderCredentials H w1 w2 w3 by (intro step) simp_all
    then obtain r4 where 4: "check_duplicate_records e s3 = (Inr r4, s4)"
      and w4: "writes_attempted s4 = writes_attempted s3 + ?n DuplicateRecords" by auto
    have 5: "check_provider_credentials e s4 = (Inl (DataAccessError k), s4)"
      using run_check_fails[OF assms(2), of s4] ProviderCredentials by simp
    have "run_checks e ?s0 = (Inl (DataAccessError k), s4)"
      unfolding run_checks_def by (simp add: and_then_def 1 2 3 4 5)
    then show ?thesis using ProviderCredentials w1 w2 w3 w4 by (simp add: registration_order_def)
  qed
  then have "fst (run_checks e ?s0) = Inl (DataAccessError k)"
    and "writes_attempted (snd (run_checks e ?s0)) = writes_attempted s
        + sum_list (map ?n (takeWhile (\<lambda>k'. k' \<noteq> k) registration_order))"
    by (metis fst_conv, simp)
  then show ?thesis
    using closed by (simp add: run_all_checks_connected[OF assms(1)] wd)
qed

theorem query_failure_aborts_run_witness:
  "\<not> connect_fails sample_env_query_failure
   \<and> query_fails sample_env_query_failure TemporalAnomalies
   \<and> \<not> query_fails sample_env_query_failure PatientCompleteness
   \<and> \<not> query_fails sample_env_query_failure ClaimsDiscrepancies
   \<and> \<not> query_fails sample_env_query_failure DuplicateRecords
   \<and> \<not> query_fails sample_env_query_failure ProviderCredentials
   \<and> fst (run_all_checks sample_env_query_failure init_checker)
       = Inl (DataAccessError TemporalAnomalies)
   \<and> writes_attempted (snd (run_all_checks sample_env_query_failure init_checker)) = 5
   \<and> \<not> connection_open (snd (run_all_checks sample_env_query_failure init_checker))"
proof -
  have e: "\<not> connect_fails sample_env_query_failure"
    "query_fails sample_env_query_failure TemporalAnomalies"
    "\<forall>k'. k' \<noteq> TemporalAnomalies \<longrightarrow> \<not> query_fails sample_env_query_failure k'"
    "db sample_env_query_failure = sample_db"
    "writes_attempted init_checker = 0"
    by (simp_all add: sample_env_query_failure_def sample_env_def init_checker_def)
  have r: "\<forall>n. n < writes_attempted init_checker
               + sum_list (map (\<lambda>k'. row_count k' (db sample_env_query_failure))
                    (takeWhile (\<lambda>k'. k' \<noteq> TemporalAnomalies) registration_order))
            \<longrightarrow> audit_write_returns sample_env_query_failure n"
    by (simp add: audit_write_returns_def sample_env_query_failure_def sample_env_def)
  show ?thesis
    using query_failure_aborts_run[OF e(1,2,3) r] e
    by (simp add: registration_order_def sample_row_counts)
qed

text \<open>
  Claim C2: for every completed run, the summary is computed from the \<open>checks\<close>
  entries of the report: \<open>total_issues_found\<close> is the sum of their
  \<open>issues_found\<close>, and \<open>status\<close> is \<open>FAIL\<close> when that sum is positive and
  \<open>PASS\<close> when it is 0; \<open>checks_performed\<close> is their number.
\<close>

theorem summary_recomputed_from_checks:
  assumes "run_all_checks e s = (Inr rep, s')"
  shows "total_issues_found (summary rep) = sum_list (map (\<lambda>kv. issues_found (snd kv)) (checks rep))
    \<and> status (summary rep) =
           (if sum_list (map (\<lambda>kv. issues_found (snd kv)) (checks rep)) > 0 then FAIL else PASS)
    \<and> checks_performed (summary rep) = length (checks rep)"
proof -
  from run_all_checks_report[OF assms] obtain cs where "rep = make_report e cs" ..
  then show ?thesis by (simp add: make_report_def Let_def)
qed

theorem summary_recomputed_from_checks_witness:
  "\<exists>rep s'. run_all_checks sample_env init_checker = (Inr rep, s')
     \<and> total_issues_found (summary rep) = 9
     \<and> status (summary rep) = FAIL
     \<and> checks_performed (summary rep) = 5"
proof -
  define rep where "rep = projr (fst (run_all_checks sample_env init_checker))"
  define s' where "s' = snd (run_all_checks sample_env init_checker)"
  have run: "run_all_checks sample_env init_checker = (Inr rep, s')"
    unfolding rep_def s'_def by (simp add: sample_defs eval_defs)
  have total: "sum_list (map (\<lambda>kv. issues_found (snd kv)) (checks rep)) = 9"
    and len: "length (checks rep) = 5"
    unfolding rep_def by (simp_all add: sample_defs eval_defs)
  from summary_recomputed_from_checks[OF run] total len
  have "total_issues_found (summary rep) = 9 \<and> status (summary rep) = FAIL
      \<and> checks_performed (summary rep) = 5"
    by simp
  with run show ?thesis by blast
qed

text \<open>
  As long as the rollback in the handler returns, a failing audit write is contained:
  the rule returns what it returns when every write succeeds, with \<open>issues_found\<close>
  the number of rows, after attempting one write for every row.
\<close>

lemma audit_failure_contained_when_rollback_returns:
  assumes "\<And>n. audit_write_returns e n"
  shows "fst (run_check k e s) = fst (run_check k (e\<lparr>audit_write_fails := (\<lambda>n. False)\<rparr>) s)
   \<and> (\<not> query_fails e k \<longrightarrow>
        (\<exists>r. fst (run_check k e s) = Inr r \<and> issues_found r = row_count k (db e))
        \<and> writes_attempted (snd (run_check k e s)) = writes_attempted s + row_count k (db e))"
  using run_check_result_indep[OF assms, of k s] run_check_ok[of e k s] assms by blast

text \<open>
  Claim C3 says that a failing audit write never aborts the enclosing rule. The handler
  of \<open>log_quality_issue\<close> calls \<open>rollback()\<close> unguarded: on the sample database,
  when the second audit write fails and its rollback raises, the completeness rule
  raises after two of its three writes and returns no result, and so does the whole run;
  with the same write failing and the rollback returning, the rule returns its three
  issues.
\<close>

theorem audit_rollback_failure_aborts_rule:
  "audit_write_fails sample_env_rollback_failure 1
   \<and> rollback_fails sample_env_rollback_failure 1
   \<and> \<not> query_fails sample_env_rollback_failure PatientCompleteness
   \<and> length (completeness_query sample_db) = 3
   \<and> fst (check_patient_completeness sample_env_rollback_failure init_checker) = Inl RollbackError
   \<and> writes_attempted (snd (check_patient_completeness sample_env_rollback_failure init_checker)) = 2
   \<and> fst (run_all_checks sample_env_rollback_failure init_checker) = Inl RollbackError
   \<and> audit_write_fails sample_env_audit_failure 1
   \<and> (\<exists>r. fst (check_patient_completeness sample_env_audit_failure init_checker) = Inr r
          \<and> issues_found r = 3)
   \<and> writes_attempted (snd (check_patient_completeness sample_env_audit_failure init_checker)) = 3"
proof -
  have a: "\<And>n. audit_write_returns sample_env_audit_failure n"
    "\<not> query_fails sample_env_audit_failure PatientCompleteness"
    "db sample_env_audit_failure = sample_db"
    "audit_write_fails sample_env_audit_failure 1"
    "writes_attempted init_checker = 0"
    by (simp_all add: audit_write_returns_def sample_env_audit_failure_def sample_env_def
        init_checker_def)
  have b: "audit_write_fails sample_env_rollback_failure 1"
    "rollback_fails sample_env_rollback_failure 1"
    "\<not> query_fails sample_env_rollback_failure PatientCompleteness"
    by (simp_all add: sample_env_rollback_failure_def sample_env_def)
  have c: "fst (check_patient_completeness sample_env_rollback_failure init_checker) = Inl RollbackError"
    "writes_attempted (snd (check_patient_completeness sample_env_rollback_failure init_checker)) = 2"
    "fst (run_all_checks sample_env_rollback_failure init_checker) = Inl RollbackError"
    by (simp_all add: sample_defs eval_defs)
  have d: "(\<exists>r. fst (check_patient_completeness sample_env_audit_failure init_checker) = Inr r
          \<and> issues_found r = 3)
     \<and> writes_attempted (snd (check_patient_completeness sample_env_audit_failure init_checker)) = 3"
    using conjunct2[OF audit_failure_contained_when_rollback_returns[OF a(1),
          of PatientCompleteness init_checker]] a(2,3,5)
    by (simp add: sample_row_counts)
  from a(4) b c d show ?thesis by (simp add: sample_row_counts)
qed

text \<open>
  Claim C4: when the connection is acquired, it is closed when \<open>run_all_checks\<close>
  ends, whether the run returns a report or raises.
\<close>

theorem connection_released:
  assumes "\<not> connect_fails e"
  shows "\<not> connection_open (snd (run_all_checks e s))"
proof -
  let ?s1 = "s\<lparr>connection := True, connection_open := True\<rparr>"
  have "connection (snd (run_checks e ?s1))"
    by (simp add: run_checks_frame)
  then show ?thesis using assms
    by (auto simp: run_all_checks_def connect_def disconnect_def split: prod.splits)
qed

theorem connection_released_witness:
  "\<not> connect_fails sample_env_query_failure
   \<and> fst (run_all_checks sample_env_query_failure init_checker)
       = Inl (DataAccessError TemporalAnomalies)
   \<and> \<not> connection_open (snd (run_all_checks sample_env_query_failure init_checker))"
proof -
  have c: "\<not> connect_fails sample_env_query_failure"
    by (simp add: sample_env_query_failure_def sample_env_def)
  have r: "fst (run_all_checks sample_env_query_failure init_checker)
       = Inl (DataAccessError TemporalAnomalies)"
    by (simp add: sample_defs eval_defs)
  from connection_released[OF c, of init_checker] c r show ?thesis by simp
qed

section \<open>Patient completeness: severity\<close>

lemma missing_fields_set: "set (missing_fields_of p) = missing_field_set p"
  by (auto simp: missing_fields_of_def missing_field_set_def array_remove_null_def)

lemma missing_fields_distinct: "distinct (missing_fields_of p)"
  by (simp add: missing_fields_of_def array_remove_null_def)

lemma missing_fields_length: "length (missing_fields_of p) = card (missing_field_set p)"
  using distinct_card[OF missing_fields_distinct, of p] by (simp add: missing_fields_set)

text \<open>
  Claim C5: for every active patient record the completeness rule flags, the severity of
  its finding is \<open>HIGH\<close> exactly when the missing-field set (each null required
  field, plus the contact group's label when both contact fields are null) has more than
  2 elements, and \<open>MEDIUM\<close> otherwise; 3 missing fields give \<open>HIGH\<close>, 1 gives
  \<open>MEDIUM\<close>. The \<open>missing_fields\<close> column of the row lists that set.
\<close>

theorem completeness_severity:
  assumes "p \<in> set (patient_records d)" and "completeness_where p"
  shows "completeness_row_of p \<in> set (completeness_query d)
    \<and> set (missing_fields (completeness_row_of p)) = missing_field_set p
    \<and> severity (completeness_finding (completeness_row_of p))
        = (if card (missing_field_set p) > 2 then HIGH else MEDIUM)
    \<and> (card (missing_field_set p) = 3 \<longrightarrow>
          severity (completeness_finding (completeness_row_of p)) = HIGH)
    \<and> (card (missing_field_set p) = 1 \<longrightarrow>
          severity (completeness_finding (completeness_row_of p)) = MEDIUM)"
proof -
  have "completeness_row_of p \<in> set (completeness_query d)"
    using assms by (simp add: completeness_query_def)
  moreover have "missing_fields (completeness_row_of p) = missing_fields_of p"
    by (simp add: completeness_row_of_def)
  ultimately show ?thesis
    by (simp add: completeness_finding_def missing_fields_set missing_fields_length)
qed

theorem completeness_severity_witness:
  "sample_patients ! 0 \<in> set (patient_records sample_db)
   \<and> completeness_where (sample_patients ! 0)
   \<and> card (missing_field_set (sample_patients ! 0)) = 3
   \<and> severity (completeness_finding (completeness_row_of (sample_patients ! 0))) = HIGH
   \<and> sample_patients ! 3 \<in> set (patient_records sample_db)
   \<and> completeness_where (sample_patients ! 3)
   \<and> card (missing_field_set (sample_patients ! 3)) = 1
   \<and> severity (completeness_finding (completeness_row_of (sample_patients ! 3))) = MEDIUM"
proof -
  have a: "sample_patients ! 0 \<in> set (patient_records sample_db)"
    "completeness_where (sample_patients ! 0)"
    "card (missing_field_set (sample_patients ! 0)) = 3"
    by (simp_all add: sample_db_def sample_patients_def completeness_where_def missing_field_set_def)
  have b: "sample_patients ! 3 \<in> set (patient_records sample_db)"
    "completeness_where (sample_patients ! 3)"
    "card (missing_field_set (sample_patients ! 3)) = 1"
    by (simp_all add: sample_db_def sample_patients_def completeness_where_def missing_field_set_def)
  show ?thesis
    using completeness_severity[OF a(1,2)] completeness_severity[OF b(1,2)] a b by simp
qed

section \<open>Temporal anomalies: precedence of the labels\<close>

text \<open>
  Claim C7: a claim whose submission date is before its service date yields exactly one
  row, at its place in the table, and its finding is labelled
  \<open>Submission before service\<close>, whatever its processing date is.
\<close>

theorem temporal_first_label_wins:
  assumes "submission_date c = Some sub" and "service_date c = Some svc" and "sub < svc"
  shows "temporal_query (d\<lparr>claims := xs @ c # ys\<rparr>)
           = temporal_query (d\<lparr>claims := xs\<rparr>) @ temporal_row_of c
               # temporal_query (d\<lparr>claims := ys\<rparr>)
    \<and> issue_description (temporal_finding (temporal_row_of c)) = Some ''Submission before service''"
  using assms
  by (simp add: temporal_query_def temporal_where_def sql_lt_def temporal_finding_def
      temporal_row_of_def anomaly_type_of_def)

theorem temporal_first_label_wins_witness:
  "submission_date (sample_claims ! 0) = Some 5
   \<and> service_date (sample_claims ! 0) = Some 10
   \<and> processing_date (sample_claims ! 0) = Some 3
   \<and> (5 :: date) < 10
   \<and> map (\<lambda>r. (claim_id (row_claim r), anomaly_type r)) (temporal_query sample_db)
       = [(''C1'', Some ''Submission before service''),
          (''C2'', Some ''Processing before submission'')]
   \<and> issue_description (temporal_finding (temporal_row_of (sample_claims ! 0)))
       = Some ''Submission before service''"
proof -
  have a: "submission_date (sample_claims ! 0) = Some 5"
    "service_date (sample_claims ! 0) = Some 10" "(5 :: date) < 10"
    "processing_date (sample_claims ! 0) = Some 3"
    by (simp_all add: sample_claims_def)
  have b: "sample_db\<lparr>claims := [] @ sample_claims ! 0 # tl sample_claims\<rparr> = sample_db"
    by (simp add: sample_db_def sample_claims_def)
  have c: "temporal_query (sample_db\<lparr>claims := []\<rparr>) = []"
    by (simp add: temporal_query_def)
  have t: "temporal_query sample_db
      = temporal_row_of (sample_claims ! 0) # temporal_query (sample_db\<lparr>claims := tl sample_claims\<rparr>)"
    and f: "issue_description (temporal_finding (temporal_row_of (sample_claims ! 0)))
       = Some ''Submission before service''"
    using temporal_first_label_wins[OF a(1,2,3), where d = sample_db and xs = "[]"
        and ys = "tl sample_claims"]
    unfolding b c by simp_all
  have r: "map (\<lambda>r. (claim_id (row_claim r), anomaly_type r))
        (temporal_row_of (sample_claims ! 0) # temporal_query (sample_db\<lparr>claims := tl sample_claims\<rparr>))
       = [(''C1'', Some ''Submission before service''),
          (''C2'', Some ''Processing before submission'')]"
    by (simp add: sample_defs temporal_query_def temporal_where_def sql_lt_def temporal_row_of_def
        anomaly_type_of_def)
  show ?thesis using a f r unfolding t by simp
qed

section \<open>Provider credentials: strict expiry\<close>

lemma in_set_map_filter:
  "y \<in> set (List.map_filter f xs) \<longleftrightarrow> (\<exists>x \<in> set xs. f x = Some y)"
  by (induction xs) (auto split: option.splits)

lemma set_map_filter_eq:
  "set (List.map_filter f xs) = {y. \<exists>x \<in> set xs. f x = Some y}"
  by (auto simp: in_set_map_filter)

lemma expired_candidate_Some:
  "expired_candidate d p = Some xp \<longleftrightarrow>
     (\<exists>x. xp = (x, p) \<and> license_expiry_date p = Some x \<and> x < current_date d
          \<and> provider_is_active p = Some True)"
  by (auto simp: expired_candidate_def split: option.splits)

lemma credentials_query_set:
  "set (credentials_query d)
     = {\<lparr>row_provider = p, days_expired = current_date d - x\<rparr> | p x.
          p \<in> set (providers d) \<and> license_expiry_date p = Some x \<and> x < current_date d
          \<and> provider_is_active p = Some True}"
proof -
  have "set (credentials_query d)
      = credential_row_of d ` {xp. \<exists>p \<in> set (providers d). expired_candidate d p = Some xp}"
    by (simp add: credentials_query_def set_map_filter_eq)
  also have "\<dots> = {\<lparr>row_provider = p, days_expired = current_date d - x\<rparr> | p x.
          p \<in> set (providers d) \<and> license_expiry_date p = Some x \<and> x < current_date d
          \<and> provider_is_active p = Some True}"
    unfolding expired_candidate_Some by (auto simp: credential_row_of_def image_iff)
  finally show ?thesis .
qed

text \<open>
  Claim C9: an active provider is flagged exactly when its expiry date is strictly
  before the current date, with \<open>days_expired\<close> the difference of the two in days:
  an expiry date equal to the current date is not flagged, one day past is flagged with
  \<open>days_expired = 1\<close>.
\<close>

theorem credential_expiry_strict:
  assumes "p \<in> set (providers d)" and "provider_is_active p = Some True"
    and "license_expiry_date p = Some x"
  shows "((\<exists>r \<in> set (credentials_query d). row_provider r = p) \<longleftrightarrow> x < current_date d)
    \<and> (\<forall>r \<in> set (credentials_query d). row_provider r = p \<longrightarrow> days_expired r = current_date d - x)
    \<and> (x = current_date d \<longrightarrow> (\<forall>r \<in> set (credentials_query d). row_provider r \<noteq> p))
    \<and> (x = current_date d - 1 \<longrightarrow>
          \<lparr>row_provider = p, days_expired = 1\<rparr> \<in> set (credentials_query d))"
  using assms unfolding credentials_query_set by force

theorem credential_expiry_strict_witness:
  "sample_providers ! 0 \<in> set (providers sample_db)
   \<and> provider_is_active (sample_providers ! 0) = Some True
   \<and> license_expiry_date (sample_providers ! 0) = Some (current_date sample_db)
   \<and> \<not> (\<exists>r \<in> set (credentials_query sample_db). row_provider r = sample_providers ! 0)
   \<and> sample_providers ! 1 \<in> set (providers sample_db)
   \<and> provider_is_active (sample_providers ! 1) = Some True
   \<and> license_expiry_date (sample_providers ! 1) = Some (current_date sample_db - 1)
   \<and> \<lparr>row_provider = sample_providers ! 1, days_expired = 1\<rparr> \<in> set (credentials_query sample_db)"
proof -
  have a: "sample_providers ! 0 \<in> set (providers sample_db)"
    "provider_is_active (sample_providers ! 0) = Some True"
    "license_expiry_date (sample_providers ! 0) = Some (current_date sample_db)"
    by (simp_all add: sample_db_def sample_providers_def)
  have b: "sample_providers ! 1 \<in> set (providers sample_db)"
    "provider_is_active (sample_providers ! 1) = Some True"
    "license_expiry_date (sample_providers ! 1) = Some (current_date sample_db - 1)"
    by (simp_all add: sample_db_def sample_providers_def)
  show ?thesis
    using credential_expiry_strict[OF a] credential_expiry_strict[OF b] a b by simp
qed

section \<open>Duplicate records: one finding per group\<close>

lemma group_ids_candidates:
  "map snd (filter (\<lambda>c. fst c = (n, b)) (List.map_filter duplicate_candidate ps))
     = map patient_id
         (filter (\<lambda>p. is_active p = Some True \<and> name p = Some n \<and> date_of_birth p = Some b) ps)"
  by (induction ps) (auto simp: duplicate_candidate_def split: option.splits)

lemma group_ids_members:
  "group_ids (duplicate_candidates d) k = map patient_id (group_members d (fst k) (snd k))"
  using group_ids_candidates[of "fst k" "snd k" "patient_records d"]
  by (simp add: group_ids_def duplicate_candidates_def group_members_def)

lemma group_ids_nonempty:
  "k \<in> set (map fst cs) \<longleftrightarrow> group_ids cs k \<noteq> []"
  by (auto simp: group_ids_def filter_empty_conv image_iff)

lemma filter_eq_distinct:
  "distinct xs \<Longrightarrow> filter (\<lambda>x. x = k) xs = (if k \<in> set xs then [k] else [])"
  by (induction xs) auto

lemma duplicate_groups_alt:
  "duplicate_groups d =
     map (duplicate_row_of (duplicate_candidates d))
       (filter (\<lambda>k. 1 < length (group_ids (duplicate_candidates d) k))
          (remdups (map fst (duplicate_candidates d))))"
  by (simp add: duplicate_groups_def Let_def filter_map o_def duplicate_row_of_def)

lemma flagged_keys_set:
  "set (filter (\<lambda>k. 1 < length (group_ids (duplicate_candidates d) k))
          (remdups (map fst (duplicate_candidates d)))) = flagged_groups d"
proof -
  have "\<And>k. 1 < length (group_ids (duplicate_candidates d) k) \<Longrightarrow>
      k \<in> set (map fst (duplicate_candidates d))"
    unfolding group_ids_nonempty by auto
  then show ?thesis
    by (auto simp: flagged_groups_def group_ids_members)
qed

lemma duplicate_query_group:
  "filter (\<lambda>r. row_name r = n \<and> row_date_of_birth r = b) (duplicate_query d)
     = (if 1 < length (group_members d n b)
        then [\<lparr>row_name = n, row_date_of_birth = b,
               duplicate_count = length (group_members d n b),
               patient_ids = map patient_id (group_members d n b)\<rparr>]
        else [])"
proof -
  let ?cs = "duplicate_candidates d"
  let ?ks = "filter (\<lambda>k. 1 < length (group_ids ?cs k)) (remdups (map fst ?cs))"
  have d: "distinct ?ks" by simp
  have "filter (\<lambda>r. row_name r = n \<and> row_date_of_birth r = b) (duplicate_groups d)
      = map (duplicate_row_of ?cs) (filter (\<lambda>k. k = (n, b)) ?ks)"
    unfolding duplicate_groups_alt
    by (simp add: filter_map o_def duplicate_row_of_def prod_eq_iff)
  also have "\<dots> = (if (n, b) \<in> flagged_groups d then [duplicate_row_of ?cs (n, b)] else [])"
    unfolding filter_eq_distinct[OF d] flagged_keys_set by simp
  finally show ?thesis
    by (simp add: duplicate_query_def filter_sort flagged_groups_def duplicate_row_of_def
        group_ids_members)
qed

lemma sum_list_insort_key:
  "sum_list (map f (insort_key g x xs)) = f x + sum_list (map f xs)"
  for f :: "'a \<Rightarrow> nat"
  by (induction xs) auto

lemma sum_list_sort_key:
  "sum_list (map f (sort_key g xs)) = sum_list (map f xs)"
  for f :: "'a \<Rightarrow> nat"
  by (induction xs) (auto simp: sum_list_insort_key)

lemma duplicate_query_count:
  "length (duplicate_query d) = card (flagged_groups d)"
proof -
  let ?cs = "duplicate_candidates d"
  let ?ks = "filter (\<lambda>k. 1 < length (group_ids ?cs k)) (remdups (map fst ?cs))"
  have "length (duplicate_query d) = length ?ks"
    by (simp add: duplicate_query_def duplicate_groups_alt)
  also have "\<dots> = card (set ?ks)"
    by (rule distinct_card[symmetric]) simp
  finally show ?thesis unfolding flagged_keys_set .
qed

lemma duplicate_query_total:
  "sum_list (map duplicate_count (duplicate_query d))
     = (\<Sum>k \<in> flagged_groups d. length (group_members d (fst k) (snd k)))"
proof -
  let ?cs = "duplicate_candidates d"
  let ?ks = "filter (\<lambda>k. 1 < length (group_ids ?cs k)) (remdups (map fst ?cs))"
  have "sum_list (map duplicate_count (duplicate_query d))
      = sum_list (map (\<lambda>k. length (group_members d (fst k) (snd k))) ?ks)"
    by (simp add: duplicate_query_def sum_list_sort_key duplicate_groups_alt o_def
        duplicate_row_of_def group_ids_members)
  also have "\<dots> = (\<Sum>k \<in> set ?ks. length (group_members d (fst k) (snd k)))"
    by (rule sum_list_distinct_conv_sum_set) simp
  finally show ?thesis unfolding flagged_keys_set .
qed

lemma check_duplicate_records_result:
  assumes "\<not> query_fails e DuplicateRecords" and "\<And>n. audit_write_returns e n"
  shows "fst (check_duplicate_records e s) =
     Inr \<lparr>check_name = ''Duplicate Records'',
          issues_found = length (duplicate_query (db e)),
          total_discrepancy = None,
          total_duplicates = Some (sum_list (map duplicate_count (duplicate_query (db e)))),
          details = DuplicateRows (duplicate_query (db e))\<rparr>"
proof -
  have "fst (log_rows e duplicate_finding (duplicate_query (db e)) s) = Inr ()"
    by (rule conjunct1[OF log_rows_total]) (simp_all add: duplicate_finding_Inr assms(2))
  then show ?thesis
    using assms(1) by (simp add: check_duplicate_records_def execute_query_def check_returns)
qed

text \<open>
  Claim C8: a group of more than one active record with the same name and birth date
  yields exactly one row, with \<open>duplicate_count\<close> the size of the group and
  \<open>patient_ids\<close> the ids of all its members; its finding lists those ids joined by
  commas. The rule's \<open>issues_found\<close> is the number of flagged groups, its
  \<open>total_duplicates\<close> the sum of their sizes, in every run where the query and the
  audit writes return.
\<close>

theorem duplicate_group_one_finding:
  assumes "1 < length (group_members d n b)"
  shows "filter (\<lambda>r. row_name r = n \<and> row_date_of_birth r = b) (duplicate_query d)
       = [\<lparr>row_name = n, row_date_of_birth = b,
           duplicate_count = length (group_members d n b),
           patient_ids = map patient_id (group_members d n b)\<rparr>]
    \<and> duplicate_finding
         \<lparr>row_name = n, row_date_of_birth = b,
          duplicate_count = length (group_members d n b),
          patient_ids = map patient_id (group_members d n b)\<rparr>
       = Inr \<lparr>check_type = ''duplicate_check'', table_name = ''patient_records'',
              record_id = patient_id (hd (group_members d n b)),
              issue_type = ''potential_duplicate'',
              issue_description =
                Some (''Duplicate patients found: ''
                      @ join '', '' (map patient_id (group_members d n b))),
              severity = MEDIUM\<rparr>
    \<and> (db e = d \<and> \<not> query_fails e DuplicateRecords \<and> (\<forall>n. audit_write_returns e n) \<longrightarrow>
         (\<exists>res. fst (check_duplicate_records e s) = Inr res
            \<and> issues_found res = card (flagged_groups d)
            \<and> total_duplicates res
                = Some (\<Sum>k \<in> flagged_groups d. length (group_members d (fst k) (snd k)))))"
proof -
  from assms obtain p ps where "group_members d n b = p # ps"
    by (cases "group_members d n b") auto
  then have "duplicate_finding
         \<lparr>row_name = n, row_date_of_birth = b,
          duplicate_count = length (group_members d n b),
          patient_ids = map patient_id (group_members d n b)\<rparr>
       = Inr \<lparr>check_type = ''duplicate_check'', table_name = ''patient_records'',
              record_id = patient_id (hd (group_members d n b)),
              issue_type = ''potential_duplicate'',
              issue_description =
                Some (''Duplicate patients found: ''
                      @ join '', '' (map patient_id (group_members d n b))),
              severity = MEDIUM\<rparr>"
    by (simp add: duplicate_finding_def)
  moreover have "db e = d \<and> \<not> query_fails e DuplicateRecords \<and> (\<forall>n. audit_write_returns e n) \<longrightarrow>
         (\<exists>res. fst (check_duplicate_records e s) = Inr res
            \<and> issues_found res = card (flagged_groups d)
            \<and> total_duplicates res
                = Some (\<Sum>k \<in> flagged_groups d. length (group_members d (fst k) (snd k))))"
    using check_duplicate_records_result[of e s]
    by (auto simp: duplicate_query_count duplicate_query_total)
  ultimately show ?thesis
    using assms by (simp add: duplicate_query_group)
qed

theorem duplicate_group_one_finding_witness:
  "map patient_id (group_members sample_db ''Ann Lee'' 100) = [''P1'', ''P2'', ''P3'']
   \<and> filter (\<lambda>r. row_name r = ''Ann Lee'' \<and> row_date_of_birth r = 100) (duplicate_query sample_db)
       = [\<lparr>row_name = ''Ann Lee'', row_date_of_birth = 100, duplicate_count = 3,
           patient_ids = [''P1'', ''P2'', ''P3'']\<rparr>]
   \<and> duplicate_finding
        \<lparr>row_name = ''Ann Lee'', row_date_of_birth = 100, duplicate_count = 3,
         patient_ids = [''P1'', ''P2'', ''P3'']\<rparr>
       = Inr \<lparr>check_type = ''duplicate_check'', table_name = ''patient_records'',
              record_id = ''P1'', issue_type = ''potential_duplicate'',
              issue_description = Some ''Duplicate patients found: P1, P2, P3'',
              severity = MEDIUM\<rparr>
   \<and> (\<exists>res. fst (check_duplicate_records sample_env init_checker) = Inr res
          \<and> issues_found res = 1 \<and> total_duplicates res = Some 3)"
proof -
  have m: "group_members sample_db ''Ann Lee'' 100 = take 3 sample_patients"
    by (simp add: group_members_def sample_db_def sample_patients_def)
  have l: "1 < length (group_members sample_db ''Ann Lee'' 100)"
    "length (group_members sample_db ''Ann Lee'' 100) = 3"
    "map patient_id (group_members sample_db ''Ann Lee'' 100) = [''P1'', ''P2'', ''P3'']"
    "patient_id (hd (group_members sample_db ''Ann Lee'' 100)) = ''P1''"
    unfolding m by (simp_all add: sample_patients_def)
  have e: "db sample_env = sample_db \<and> \<not> query_fails sample_env DuplicateRecords
      \<and> (\<forall>n. audit_write_returns sample_env n)"
    by (simp add: sample_env_def audit_write_returns_def)
  have c: "card (flagged_groups sample_db) = 1"
    unfolding duplicate_query_count[symmetric] by (rule sample_row_counts)
  have t: "(\<Sum>k \<in> flagged_groups sample_db. length (group_members sample_db (fst k) (snd k))) = 3"
    unfolding duplicate_query_total[symmetric]
    by (simp add: sample_defs duplicate_query_def duplicate_groups_def duplicate_candidates_def
      duplicate_candidate_def duplicate_row_of_def group_ids_def)
  show ?thesis
    using duplicate_group_one_finding[OF l(1), of sample_env init_checker] e
    unfolding l c t by simp
qed

lemma duplicate_candidates_nonnull:
  "List.map_filter duplicate_candidate
      (filter (\<lambda>p. name p \<noteq> None \<and> date_of_birth p \<noteq> None) ps)
     = List.map_filter duplicate_candidate ps"
  by (induction ps) (auto simp: duplicate_candidate_def split: option.splits)

lemma duplicate_candidates_all_null:
  "\<forall>p \<in> set ps. name p = None \<or> date_of_birth p = None \<Longrightarrow>
     List.map_filter duplicate_candidate ps = []"
  by (induction ps) (auto simp: duplicate_candidate_def split: option.splits)

text \<open>
  Claim C10: records whose name or birth date is null take no part in duplicate
  detection. The result of the query is the same with these records removed from the
  table; the ids of every row are those of a group whose members all have a name and a
  birth date; and a table of null-keyed records only, however many and however alike,
  yields no row.
\<close>

theorem null_keyed_records_excluded:
  "duplicate_query d
     = duplicate_query
         (d\<lparr>patient_records :=
              filter (\<lambda>p. name p \<noteq> None \<and> date_of_birth p \<noteq> None) (patient_records d)\<rparr>)
   \<and> (\<forall>r \<in> set (duplicate_query d).
         patient_ids r = map patient_id (group_members d (row_name r) (row_date_of_birth r)))
   \<and> (\<forall>p \<in> set (group_members d n b). name p \<noteq> None \<and> date_of_birth p \<noteq> None)
   \<and> ((\<forall>p \<in> set (patient_records d). name p = None \<or> date_of_birth p = None)
        \<longrightarrow> duplicate_query d = [])"
proof -
  let ?d' = "d\<lparr>patient_records :=
              filter (\<lambda>p. name p \<noteq> None \<and> date_of_birth p \<noteq> None) (patient_records d)\<rparr>"
  have "duplicate_candidates ?d' = duplicate_candidates d"
    using duplicate_candidates_nonnull[of "patient_records d"]
    by (simp add: duplicate_candidates_def)
  then have 1: "duplicate_query d = duplicate_query ?d'"
    by (simp add: duplicate_query_def duplicate_groups_def)
  have 2: "\<forall>r \<in> set (duplicate_query d).
         patient_ids r = map patient_id (group_members d (row_name r) (row_date_of_birth r))"
    by (auto simp: duplicate_query_def duplicate_groups_alt duplicate_row_of_def group_ids_members)
  have 3: "\<forall>p \<in> set (group_members d n b). name p \<noteq> None \<and> date_of_birth p \<noteq> None"
    by (simp add: group_members_def)
  have 4: "(\<forall>p \<in> set (patient_records d). name p = None \<or> date_of_birth p = None)
        \<longrightarrow> duplicate_query d = []"
    using duplicate_candidates_all_null[of "patient_records d"]
    by (auto simp: duplicate_query_def duplicate_groups_def duplicate_candidates_def)
  from 1 2 3 4 show ?thesis by blast
qed

theorem null_keyed_records_excluded_witness:
  "name (sample_patients ! 3) = None \<and> name (sample_patients ! 4) = None
   \<and> is_active (sample_patients ! 3) = Some True \<and> is_active (sample_patients ! 4) = Some True
   \<and> sample_patients ! 4 = (sample_patients ! 3)\<lparr>patient_id := ''P5''\<rparr>
   \<and> duplicate_query sample_db = duplicate_query (sample_db\<lparr>patient_records := take 3 sample_patients\<rparr>)
   \<and> map patient_ids (duplicate_query sample_db) = [[''P1'', ''P2'', ''P3'']]"
proof -
  have a: "name (sample_patients ! 3) = None \<and> name (sample_patients ! 4) = None
    \<and> is_active (sample_patients ! 3) = Some True \<and> is_active (sample_patients ! 4) = Some True
    \<and> sample_patients ! 4 = (sample_patients ! 3)\<lparr>patient_id := ''P5''\<rparr>"
    by (simp add: sample_patients_def)
  have f: "filter (\<lambda>p. name p \<noteq> None \<and> date_of_birth p \<noteq> None) (patient_records sample_db)
      = take 3 sample_patients"
    by (simp add: sample_db_def sample_patients_def)
  have q: "map patient_ids (duplicate_query sample_db) = [[''P1'', ''P2'', ''P3'']]"
    by (simp add: sample_defs duplicate_query_def duplicate_groups_def duplicate_candidates_def
      duplicate_candidate_def duplicate_row_of_def group_ids_def)
  show ?thesis
    using null_keyed_records_excluded[of sample_db "''Ann Lee''" 100] a q
    unfolding f by simp
qed

section \<open>Claims discrepancies: the tolerance and the zero total\<close>

text \<open>
  \<open>claim_id\<close> identifies a claim: the line items refer to their claim by it. On a
  table where it is unique, every group of \<open>claim_line_totals\<close> is one claim.
\<close>

lemma sum_amounts_eq:
  "sum_amounts its = sum_list (map (\<lambda>i. case line_item_amount i of None \<Rightarrow> 0 | Some a \<Rightarrow> a) its)"
  by (induction its) (auto simp: sum_amounts_def array_remove_null_def split: option.splits)

lemma sum_amounts_joined: "sum_amounts (joined_items d c) = child_amounts_sum d c"
  by (simp add: sum_amounts_eq joined_items_def child_amounts_sum_def)

lemma distinct_claim_keys:
  "distinct (map claim_id cs) \<Longrightarrow> distinct (map claim_key cs)"
  by (induction cs) (auto simp: claim_key_def)

lemma filter_claim_key_single:
  "distinct (map claim_id cs) \<Longrightarrow> c \<in> set cs \<Longrightarrow>
     filter (\<lambda>c'. claim_key c' = claim_key c) cs = [c]"
  by (induction cs) (auto simp: claim_key_def filter_empty_conv image_iff)

lemma claim_line_totals_distinct:
  assumes "distinct (map claim_id (claims d))"
  shows "claim_line_totals d
     = map (\<lambda>c. (claim_key c, child_amounts_sum d c, length (joined_items d c))) (claims d)"
proof -
  have r: "remdups (map claim_key (claims d)) = map claim_key (claims d)"
    using distinct_claim_keys[OF assms] by (rule distinct_remdups_id)
  have "claim_line_totals d
      = map (\<lambda>c. let its = concat (map (joined_items d)
                                 (filter (\<lambda>c'. claim_key c' = claim_key c) (claims d)))
                  in (claim_key c, sum_amounts its, length its)) (claims d)"
    unfolding claim_line_totals_def r by (simp add: o_def)
  also have "\<dots> = map (\<lambda>c. (claim_key c, child_amounts_sum d c, length (joined_items d c)))
                       (claims d)"
    by (rule map_cong) (simp_all add: filter_claim_key_single[OF assms] sum_amounts_joined)
  finally show ?thesis .
qed

lemma discrepancy_query_set:
  "set (discrepancy_query d) = {r. \<exists>t \<in> set (claim_line_totals d). discrepancy_row_of t = Some r}"
  by (simp add: discrepancy_query_def set_map_filter_eq)

lemma discrepancy_row_of_claim:
  "discrepancy_row_of (claim_key c, calc, n) = Some r \<longleftrightarrow>
     (\<exists>t. claim_total_amount c = Some t \<and> \<bar>t - calc\<bar> > 1 / 100
        \<and> r = \<lparr>row_claim_id = claim_id c, row_patient_id = claim_patient_id c,
                row_provider_id = claim_provider_id c,
                row_claim_total_amount = t, calculated_total = calc, line_item_count = n,
                discrepancy_amount = \<bar>t - calc\<bar>,
                discrepancy_percentage =
                  (if t = 0 then None else Some (round2 (\<bar>t - calc\<bar> / t * 100)))\<rparr>)"
  by (auto simp: discrepancy_row_of_def claim_key_def split: option.splits)

lemma discrepancy_rows_of_claim:
  assumes "distinct (map claim_id (claims d))" and "c \<in> set (claims d)"
  shows "r \<in> set (discrepancy_query d) \<and> row_claim_id r = claim_id c \<longleftrightarrow>
     discrepancy_row_of (claim_key c, child_amounts_sum d c, length (joined_items d c)) = Some r"
proof
  assume "r \<in> set (discrepancy_query d) \<and> row_claim_id r = claim_id c"
  then obtain c' where c': "c' \<in> set (claims d)"
      "discrepancy_row_of (claim_key c', child_amounts_sum d c', length (joined_items d c')) = Some r"
      "row_claim_id r = claim_id c"
    unfolding discrepancy_query_set claim_line_totals_distinct[OF assms(1)] by auto
  from c'(2) have "row_claim_id r = claim_id c'"
    unfolding discrepancy_row_of_claim by auto
  with c'(3) have "claim_id c' = claim_id c" by simp
  moreover have "inj_on claim_id (set (claims d))"
    using assms(1) by (simp add: distinct_map)
  ultimately have "c' = c"
    using assms(2) c'(1) by (auto dest: inj_onD)
  with c'(2) show "discrepancy_row_of (claim_key c, child_amounts_sum d c, length (joined_items d c)) = Some r"
    by simp
next
  assume a: "discrepancy_row_of (claim_key c, child_amounts_sum d c, length (joined_items d c)) = Some r"
  then have "row_claim_id r = claim_id c"
    unfolding discrepancy_row_of_claim by auto
  moreover have "r \<in> set (discrepancy_query d)"
    unfolding discrepancy_query_set claim_line_totals_distinct[OF assms(1)]
    using a assms(2) by auto
  ultimately show "r \<in> set (discrepancy_query d) \<and> row_claim_id r = claim_id c" by simp
qed

text \<open>
  Claim C6: a claim with a stated total is flagged exactly when the absolute difference
  between the stated total and the sum of its line items' amounts (0 without line items)
  exceeds 0.01. For a stated total of 0 every row reported for the claim has a null
  \<open>discrepancy_percentage\<close>, and the rule returns its result in every run where the
  query and the audit writes return: the division by \<open>NULLIF(claim_total_amount, 0)\<close>
  raises nothing.
\<close>

theorem discrepancy_flagged_beyond_tolerance:
  assumes "distinct (map claim_id (claims d))" and "c \<in> set (claims d)"
    and "claim_total_amount c = Some t"
  shows "((\<exists>r \<in> set (discrepancy_query d). row_claim_id r = claim_id c)
            \<longleftrightarrow> \<bar>t - child_amounts_sum d c\<bar> > 1 / 100)
    \<and> (\<forall>r \<in> set (discrepancy_query d). row_claim_id r = claim_id c \<longrightarrow>
          discrepancy_amount r = \<bar>t - child_amounts_sum d c\<bar>
          \<and> (t = 0 \<longrightarrow> discrepancy_percentage r = None))
    \<and> (db e = d \<and> \<not> query_fails e ClaimsDiscrepancies \<and> (\<forall>n. audit_write_returns e n) \<longrightarrow>
          (\<exists>res. fst (check_claims_discrepancies e s) = Inr res
             \<and> issues_found res = length (discrepancy_query d)))"
proof -
  define R where "R = \<lparr>row_claim_id = claim_id c, row_patient_id = claim_patient_id c,
                row_provider_id = claim_provider_id c,
                row_claim_total_amount = t, calculated_total = child_amounts_sum d c,
                line_item_count = length (joined_items d c),
                discrepancy_amount = \<bar>t - child_amounts_sum d c\<bar>,
                discrepancy_percentage =
                  (if t = 0 then None
                   else Some (round2 (\<bar>t - child_amounts_sum d c\<bar> / t * 100)))\<rparr>"
  have rows: "(r \<in> set (discrepancy_query d) \<and> row_claim_id r = claim_id c) \<longleftrightarrow>
      (\<bar>t - child_amounts_sum d c\<bar> > 1 / 100 \<and> r = R)" for r
  proof -
    have "discrepancy_row_of (claim_key c, child_amounts_sum d c, length (joined_items d c)) = Some r
        \<longleftrightarrow> (\<bar>t - child_amounts_sum d c\<bar> > 1 / 100 \<and> r = R)"
      unfolding discrepancy_row_of_claim R_def using assms(3) by simp
    with discrepancy_rows_of_claim[OF assms(1,2), of r] show ?thesis by (rule trans)
  qed
  have RA: "discrepancy_amount R = \<bar>t - child_amounts_sum d c\<bar>"
    and RP: "t = 0 \<longrightarrow> discrepancy_percentage R = None"
    and RI: "row_claim_id R = claim_id c"
    by (simp_all add: R_def)
  have 1: "(\<exists>r \<in> set (discrepancy_query d). row_claim_id r = claim_id c)
            \<longleftrightarrow> \<bar>t - child_amounts_sum d c\<bar> > 1 / 100"
  proof
    assume "\<exists>r \<in> set (discrepancy_query d). row_claim_id r = claim_id c"
    then obtain r where "r \<in> set (discrepancy_query d) \<and> row_claim_id r = claim_id c" by blast
    then show "\<bar>t - child_amounts_sum d c\<bar> > 1 / 100" unfolding rows by (rule conjunct1)
  next
    assume "\<bar>t - child_amounts_sum d c\<bar> > 1 / 100"
    then have "R \<in> set (discrepancy_query d) \<and> row_claim_id R = claim_id c"
      unfolding rows by simp
    then show "\<exists>r \<in> set (discrepancy_query d). row_claim_id r = claim_id c" by blast
  qed
  have 2: "\<forall>r \<in> set (discrepancy_query d). row_claim_id r = claim_id c \<longrightarrow>
          discrepancy_amount r = \<bar>t - child_amounts_sum d c\<bar>
          \<and> (t = 0 \<longrightarrow> discrepancy_percentage r = None)"
  proof (intro ballI impI)
    fix r assume "r \<in> set (discrepancy_query d)" and "row_claim_id r = claim_id c"
    then have "r \<in> set (discrepancy_query d) \<and> row_claim_id r = claim_id c" by simp
    then have "r = R" unfolding rows by (rule conjunct2)
    with RA RP show "discrepancy_amount r = \<bar>t - child_amounts_sum d c\<bar>
          \<and> (t = 0 \<longrightarrow> discrepancy_percentage r = None)" by simp
  qed
  have 3: "db e = d \<and> \<not> query_fails e ClaimsDiscrepancies \<and> (\<forall>n. audit_write_returns e n) \<longrightarrow>
          (\<exists>res. fst (check_claims_discrepancies e s) = Inr res
             \<and> issues_found res = length (discrepancy_query d))"
  proof
    assume a: "db e = d \<and> \<not> query_fails e ClaimsDiscrepancies \<and> (\<forall>n. audit_write_returns e n)"
    then have "\<not> query_fails e ClaimsDiscrepancies" by simp
    from run_check_ok(1)[OF this, of s] a
    show "\<exists>res. fst (check_claims_discrepancies e s) = Inr res
             \<and> issues_found res = length (discrepancy_query d)" by simp
  qed
  from 1 2 3 show ?thesis by (intro conjI)
qed


theorem discrepancy_flagged_beyond_tolerance_witness:
  "distinct (map claim_id (claims sample_db))
   \<and> claim_total_amount (sample_claims ! 0) = Some 0
   \<and> child_amounts_sum sample_db (sample_claims ! 0) = 5
   \<and> (\<exists>r. r \<in> set (discrepancy_query sample_db) \<and> row_claim_id r = ''C1''
          \<and> discrepancy_amount r = 5 \<and> discrepancy_percentage r = None)
   \<and> claim_total_amount (sample_claims ! 1) = Some 100
   \<and> child_amounts_sum sample_db (sample_claims ! 1) = 20001 / 200
   \<and> \<not> (\<exists>r. r \<in> set (discrepancy_query sample_db) \<and> row_claim_id r = ''C2'')
   \<and> (\<exists>res. fst (check_claims_discrepancies sample_env init_checker) = Inr res
          \<and> issues_found res = 2)"
proof -
  have d: "distinct (map claim_id (claims sample_db))"
    by (simp add: sample_db_def sample_claims_def)
  have a: "sample_claims ! 0 \<in> set (claims sample_db)"
    "claim_total_amount (sample_claims ! 0) = Some 0"
    "child_amounts_sum sample_db (sample_claims ! 0) = 5"
    "claim_id (sample_claims ! 0) = ''C1''"
    by (simp_all add: sample_db_def sample_claims_def sample_line_items_def child_amounts_sum_def)
  have b: "sample_claims ! 1 \<in> set (claims sample_db)"
    "claim_total_amount (sample_claims ! 1) = Some 100"
    "child_amounts_sum sample_db (sample_claims ! 1) = 20001 / 200"
    "claim_id (sample_claims ! 1) = ''C2''"
    by (simp_all add: sample_db_def sample_claims_def sample_line_items_def child_amounts_sum_def)
  have e: "db sample_env = sample_db \<and> \<not> query_fails sample_env ClaimsDiscrepancies
      \<and> (\<forall>n. audit_write_returns sample_env n)"
    by (simp add: sample_env_def audit_write_returns_def)
  note A = discrepancy_flagged_beyond_tolerance[OF d a(1,2), of sample_env init_checker]
  note B = discrepancy_flagged_beyond_tolerance[OF d b(1,2), of sample_env init_checker]
  from A have "\<exists>r. r \<in> set (discrepancy_query sample_db) \<and> row_claim_id r = ''C1''
          \<and> discrepancy_amount r = 5 \<and> discrepancy_percentage r = None"
    unfolding a(3,4) by auto
  moreover from B have "\<not> (\<exists>r. r \<in> set (discrepancy_query sample_db) \<and> row_claim_id r = ''C2'')"
    unfolding b(3,4) by auto
  moreover from A e have "\<exists>res. fst (check_claims_discrepancies sample_env init_checker) = Inr res
          \<and> issues_found res = 2"
    by (simp add: sample_row_counts)
  ultimately show ?thesis using d a b by simp
qed

end
